theory Spec2Isabelle
  imports Complex_Main "HOL-Library.AList"
begin

section \<open>Values, exceptions and the Python operators used by the gateway\<close>

text \<open>
  The module \<^verbatim>\<open>backend/apps/openai/main.py\<close> handles decoded JSON throughout: request
  bodies, backend responses and model parameters are Python values built from
  \<^verbatim>\<open>None\<close>, booleans, numbers, strings, lists and dictionaries. A dictionary keeps its
  insertion order, so it is an association list; storing under an existing key replaces the
  value in place and a new key is appended (\<open>AList.update\<close>). Floats are idealised as
  the real numbers they denote.
\<close>

datatype json =
    JNull
  | JBool bool
  | JInt int
  | JFloat real
  | JStr string
  | JList "json list"
  | JObj "(string \<times> json) list"

text \<open>
  Every \<^verbatim>\<open>raise\<close> is a value. \<open>ClientError\<close> stands for whatever the HTTP client
  libraries raise (connection failure, timeout, bad status, undecodable body);
  \<open>HTTPException\<close> is FastAPI's exception with its status code and detail.
\<close>

datatype error =
    TypeError
  | KeyError json
  | AttributeError
  | ValueError
  | IndexError
  | OverflowError
  | ClientError string
  | HTTPException nat string

definition ebind :: "error + 'a \<Rightarrow> ('a \<Rightarrow> error + 'b) \<Rightarrow> error + 'b" where
  "ebind m f = (case m of Inl e \<Rightarrow> Inl e | Inr x \<Rightarrow> f x)"

text \<open>Evaluating a list of computations from left to right; the first exception wins.\<close>

fun traverse :: "('a \<Rightarrow> error + 'b) \<Rightarrow> 'a list \<Rightarrow> error + 'b list" where
  "traverse f [] = Inr []"
| "traverse f (x # xs) =
     (case f x of
        Inl e \<Rightarrow> Inl e
      | Inr y \<Rightarrow> (case traverse f xs of Inl e \<Rightarrow> Inl e | Inr ys \<Rightarrow> Inr (y # ys)))"

text \<open>Python truthiness (\<^verbatim>\<open>if v:\<close>, \<^verbatim>\<open>v and ...\<close>).\<close>

fun truthy :: "json \<Rightarrow> bool" where
  "truthy JNull = False"
| "truthy (JBool b) = b"
| "truthy (JInt i) = (i \<noteq> 0)"
| "truthy (JFloat r) = (r \<noteq> 0)"
| "truthy (JStr s) = (s \<noteq> [])"
| "truthy (JList xs) = (xs \<noteq> [])"
| "truthy (JObj d) = (d \<noteq> [])"

text \<open>\<^verbatim>\<open>p in s\<close> on two strings: \<open>p\<close> occurs in \<open>s\<close> as a contiguous substring.\<close>

fun str_in :: "string \<Rightarrow> string \<Rightarrow> bool" where
  "str_in p [] = (p = [])"
| "str_in p (c # cs) = (take (length p) (c # cs) = p \<or> str_in p cs)"

text \<open>
  \<^verbatim>\<open>"k" in v\<close> with a string literal on the left: substring test on a string, membership
  in a list, key test on a dictionary; a number, boolean or \<^verbatim>\<open>None\<close> is not iterable.
\<close>

fun contains :: "json \<Rightarrow> string \<Rightarrow> error + bool" where
  "contains (JStr s) k = Inr (str_in k s)"
| "contains (JList xs) k = Inr (JStr k \<in> set xs)"
| "contains (JObj d) k = Inr (k \<in> fst ` set d)"
| "contains _ k = Inl TypeError"

text \<open>\<^verbatim>\<open>v["k"]\<close> with a string literal: only a dictionary can be indexed by a string.\<close>

fun subscript :: "json \<Rightarrow> string \<Rightarrow> error + json" where
  "subscript (JObj d) k = (case map_of d k of None \<Rightarrow> Inl (KeyError (JStr k)) | Some v \<Rightarrow> Inr v)"
| "subscript _ k = Inl TypeError"

text \<open>\<^verbatim>\<open>d.get(k, default)\<close> on a dictionary.\<close>

definition dict_get :: "(string \<times> json) list \<Rightarrow> string \<Rightarrow> json \<Rightarrow> json" where
  "dict_get d k dflt = (case map_of d k of None \<Rightarrow> dflt | Some v \<Rightarrow> v)"

text \<open>\<^verbatim>\<open>v.get(k)\<close> on an arbitrary value: only dictionaries have the method.\<close>

fun get_attr :: "json \<Rightarrow> string \<Rightarrow> error + json" where
  "get_attr (JObj d) k = Inr (dict_get d k JNull)"
| "get_attr _ k = Inl AttributeError"

text \<open>\<^verbatim>\<open>for x in v\<close>: list elements, dictionary keys, or the characters of a string.\<close>

fun iter_json :: "json \<Rightarrow> error + json list" where
  "iter_json (JList xs) = Inr xs"
| "iter_json (JObj d) = Inr (map (\<lambda>kv. JStr (fst kv)) d)"
| "iter_json (JStr s) = Inr (map (\<lambda>c. JStr [c]) s)"
| "iter_json _ = Inl TypeError"

text \<open>\<^verbatim>\<open>xs[i]\<close> on a list with a non-negative index.\<close>

definition index :: "'a list \<Rightarrow> nat \<Rightarrow> error + 'a" where
  "index xs i = (if i < length xs then Inr (xs ! i) else Inl IndexError)"

text \<open>
  Dictionary keys must be hashable, and Python identifies the keys \<^verbatim>\<open>1\<close>, \<^verbatim>\<open>1.0\<close> and
  \<^verbatim>\<open>True\<close>: a key is stored in a normal form.
\<close>

fun hash_key :: "json \<Rightarrow> error + json" where
  "hash_key (JList xs) = Inl TypeError"
| "hash_key (JObj d) = Inl TypeError"
| "hash_key (JBool b) = Inr (JInt (if b then 1 else 0))"
| "hash_key (JFloat r) = Inr (if of_int \<lfloor>r\<rfloor> = r then JInt \<lfloor>r\<rfloor> else JFloat r)"
| "hash_key v = Inr v"

text \<open>\<^verbatim>\<open>xs[i]\<close> with a Python integer: a negative index counts from the end.\<close>

definition py_index :: "'a list \<Rightarrow> int \<Rightarrow> error + 'a" where
  "py_index xs i =
     (if 0 \<le> i \<and> i < int (length xs) then Inr (xs ! nat i)
      else if i < 0 \<and> - int (length xs) \<le> i then Inr (xs ! nat (int (length xs) + i))
      else Inl IndexError)"

text \<open>\<^verbatim>\<open>xs[v]\<close> where the index is a decoded value: integers and booleans index a list.\<close>

fun list_subscript :: "'a list \<Rightarrow> json \<Rightarrow> error + 'a" where
  "list_subscript xs (JInt i) = py_index xs i"
| "list_subscript xs (JBool b) = py_index xs (if b then 1 else 0)"
| "list_subscript xs _ = Inl TypeError"

text \<open>\<^verbatim>\<open>s.lower()\<close> on the ASCII letters, and \<^verbatim>\<open>s.startswith(p)\<close>.\<close>

definition lower_char :: "char \<Rightarrow> char" where
  "lower_char c =
     (let n = (of_char c :: nat) in if 65 \<le> n \<and> n \<le> 90 then char_of (n + 32) else c)"

definition lower :: "string \<Rightarrow> string" where
  "lower s = map lower_char s"

definition startswith :: "string \<Rightarrow> string \<Rightarrow> bool" where
  "startswith s p = (take (length p) s = p)"

section \<open>Application state and its environment\<close>

text \<open>
  \<^verbatim>\<open>app.state\<close>: the configuration lists and the model catalog \<^verbatim>\<open>app.state.MODELS\<close>,
  a dictionary from model id to model entry.
\<close>

record app_state =
  ENABLE_OPENAI_API :: "bool option"
  OPENAI_API_BASE_URLS :: "string list"
  OPENAI_API_KEYS :: "string list"
  ENABLE_MODEL_FILTER :: bool
  MODEL_FILTER_LIST :: "string list"
  MODELS :: "(json \<times> json) list"

text \<open>
  An override profile as \<^verbatim>\<open>Models.get_model_by_id\<close> returns it: the optional
  base-model alias and the parameters after \<^verbatim>\<open>model_dump()\<close>, a dictionary that may
  hold any extra key.
\<close>

record model_info =
  base_model_id :: "string option"
  params :: "(string \<times> json) list"

text \<open>The verified caller supplied by the authentication dependency.\<close>

record user =
  user_name :: string
  user_id :: string
  user_email :: string
  user_role :: string
  user_info :: json

text \<open>
  A backend's answer to one HTTP request: status, header lines in the order received, the
  body as the stream of chunks in which it arrives, and what decoding the whole body with
  \<^verbatim>\<open>.json()\<close> gives.
\<close>

record reply =
  status :: nat
  headers :: "(string \<times> string) list"
  content :: "string list"
  json_body :: "error + json"

datatype session = ClientSession

text \<open>
  The three ways the outbound POST of the chat handler can go: creating the session
  raises, the request raises (no response object), or a response arrives.
\<close>

datatype post_outcome =
    SessionFailed error
  | RequestFailed error
  | Replied reply

text \<open>
  Everything outside the module. \<open>http_get_json url key\<close> is what the request to
  \<^verbatim>\<open><url>\<close> with a bearer key does inside \<open>fetch_url\<close> (the context managers and
  \<^verbatim>\<open>response.json()\<close>): it raises, after at most the 5 second timeout, or it yields
  the decoded body. \<open>requests_get\<close> is the synchronous \<^verbatim>\<open>requests.request\<close> of
  \<open>get_models\<close> and \<open>http_post\<close> the aiohttp POST of the chat handler.
  \<open>clock1\<close> and \<open>clock2\<close> are the two readings of \<^verbatim>\<open>int(time.time())\<close>.
  \<open>get_model_by_id\<close> is the override store; \<open>prompt_template\<close> is the helper of
  \<^verbatim>\<open>utils.task\<close>, called with the template, the user's name and location.
  \<open>parse_float\<close> and \<open>parse_int\<close> read a number from a string as \<^verbatim>\<open>float(s)\<close>
  and \<^verbatim>\<open>int(s)\<close> do, \<open>nearest_double\<close> is the float that \<^verbatim>\<open>float(i)\<close> gives for an
  integer too large to be a float itself (\<open>None\<close> beyond the range of floats, where Python
  raises \<^verbatim>\<open>OverflowError\<close>), \<open>unicode_escape\<close> is
  \<^verbatim>\<open>bytes(s, "utf-8").decode("unicode_escape")\<close>, \<open>py_str\<close> and \<open>exc_str\<close>
  format a value and an exception inside an f-string. Infinities and NaN are not
  represented.
\<close>

record world =
  http_get_json :: "string \<Rightarrow> string \<Rightarrow> error + json"
  requests_get :: "string \<Rightarrow> string \<Rightarrow> error + reply"
  http_post :: "string \<Rightarrow> string \<Rightarrow> json \<Rightarrow> post_outcome"
  clock1 :: int
  clock2 :: int
  get_model_by_id :: "json \<Rightarrow> model_info option"
  prompt_template :: "json \<Rightarrow> string \<Rightarrow> json \<Rightarrow> error + string"
  parse_float :: "string \<Rightarrow> real option"
  parse_int :: "string \<Rightarrow> int option"
  nearest_double :: "int \<Rightarrow> real option"
  unicode_escape :: "string \<Rightarrow> error + string"
  py_str :: "json \<Rightarrow> string"
  exc_str :: "error \<Rightarrow> string"

subsection \<open>\<^verbatim>\<open>fetch_url\<close> (lines 179-189)\<close>

definition fetch_url :: "world \<Rightarrow> string \<Rightarrow> string \<Rightarrow> json" where
  "fetch_url w url key = (case http_get_json w url key of Inl e \<Rightarrow> JNull | Inr v \<Rightarrow> v)"

subsection \<open>\<^verbatim>\<open>merge_models_lists\<close> (lines 202-224)\<close>

text \<open>
  Lines 210-216, the dictionary display
  \<^verbatim>\<open>{**model, "name": model.get("name", model["id"]), "owned_by": "openai", "openai": model, "urlIdx": idx}\<close>
  for a model that is a dictionary \<open>d\<close> with id \<open>i\<close>.
\<close>

definition tagged_entry :: "nat \<Rightarrow> (string \<times> json) list \<Rightarrow> json \<Rightarrow> json" where
  "tagged_entry idx d i =
     JObj (AList.update ''urlIdx'' (JInt (int idx))
          (AList.update ''openai'' (JObj d)
          (AList.update ''owned_by'' (JStr ''openai'')
          (AList.update ''name'' (dict_get d ''name'' i) d))))"

text \<open>
  One element of the list comprehension for backend \<open>idx\<close>: the filter condition of lines
  218-220 is evaluated first (\<open>None\<close> when the model is dropped), then the display, which
  needs a dictionary with an \<^verbatim>\<open>id\<close>.
\<close>

definition model_entry :: "string list \<Rightarrow> nat \<Rightarrow> json \<Rightarrow> error + json option" where
  "model_entry urls idx model =
     ebind (index urls idx) (\<lambda>url.
     ebind (if \<not> str_in ''api.openai.com'' url then Inr True
            else ebind (subscript model ''id'') (\<lambda>i. contains i ''gpt'')) (\<lambda>keep.
     if \<not> keep then Inr None
     else (case model of
             JObj d \<Rightarrow> ebind (subscript model ''id'') (\<lambda>i. Inr (Some (tagged_entry idx d i)))
           | _ \<Rightarrow> Inl TypeError)))"

definition backend_entries :: "string list \<Rightarrow> nat \<Rightarrow> json \<Rightarrow> error + json list" where
  "backend_entries urls idx models =
     ebind (if models = JNull then Inr False
            else ebind (contains models ''error'') (\<lambda>b. Inr (\<not> b))) (\<lambda>usable.
     if usable then
       ebind (iter_json models) (\<lambda>ms.
       ebind (traverse (model_entry urls idx) ms) (\<lambda>es.
         Inr (List.map_filter id es)))
     else Inr [])"

fun merge_from :: "string list \<Rightarrow> nat \<Rightarrow> json list \<Rightarrow> error + json list" where
  "merge_from urls idx [] = Inr []"
| "merge_from urls idx (models # rest) =
     ebind (backend_entries urls idx models) (\<lambda>part.
     ebind (merge_from urls (Suc idx) rest) (\<lambda>more. Inr (part @ more)))"

definition merge_models_lists :: "string list \<Rightarrow> json list \<Rightarrow> error + json list" where
  "merge_models_lists urls model_lists = merge_from urls 0 model_lists"

subsection \<open>\<^verbatim>\<open>get_all_models\<close> (lines 227-509)\<close>

text \<open>Lines 237-255: the key list is cut or padded to the length of the URL list.\<close>

definition reconcile_keys :: "string list \<Rightarrow> string list \<Rightarrow> string list" where
  "reconcile_keys urls keys =
     (if length keys \<noteq> length urls then
        (if length keys > length urls then take (length urls) keys
         else keys @ replicate (length urls - length keys) '''')
      else keys)"

text \<open>Lines 272-276: the list of models carried by one response.\<close>

definition response_models :: "json \<Rightarrow> error + json" where
  "response_models response =
     ebind (if truthy response then contains response ''data'' else Inr False) (\<lambda>has_data.
     if has_data then subscript response ''data''
     else Inr (case response of JList xs \<Rightarrow> response | _ \<Rightarrow> JNull))"

text \<open>The literal entries of lines 287-328 and 334-453.\<close>

definition provider_payload :: "string \<Rightarrow> int \<Rightarrow> json" where
  "provider_payload mid t =
     JObj [(''id'', JStr mid), (''object'', JStr ''model''), (''created'', JInt t),
           (''owned_by'', JStr ''system'')]"

definition static_entry :: "string \<Rightarrow> int \<Rightarrow> (string \<times> json) list" where
  "static_entry mid t =
     [(''id'', JStr mid), (''object'', JStr ''model''), (''created'', JInt t),
      (''owned_by'', JStr ''openai''), (''name'', JStr mid),
      (''openai'', provider_payload mid t)]"

definition moonshot_models :: "int \<Rightarrow> json list" where
  "moonshot_models t =
     [JObj (static_entry ''moonshot-v1-8k'' t @ [(''urlIdx'', JInt 0)]),
      JObj (static_entry ''moonshot-v1-32k'' t),
      JObj (static_entry ''moonshot-v1-64k'' t)]"

definition qianfan_models :: "int \<Rightarrow> json list" where
  "qianfan_models t =
     [JObj (static_entry ''ERNIE-4.0-8K'' t @ [(''urlIdx'', JInt 0)]),
      JObj (static_entry ''ERNIE-4.0-8K-Preview'' t),
      JObj (static_entry ''ERNIE-4.0-8K-Preview-0518'' t),
      JObj (static_entry ''ERNIE-4.0-8K-Latest'' t),
      JObj (static_entry ''ERNIE-4.0-8K-0329'' t),
      JObj (static_entry ''ERNIE-4.0-8K-0613'' t),
      JObj (static_entry ''ERNIE-4.0-Turbo-8K'' t),
      JObj (static_entry ''ERNIE-4.0-Turbo-8K-Preview'' t),
      JObj (static_entry ''ERNIE-3.5-8K'' t)]"

text \<open>
  Line 507: \<^verbatim>\<open>{model["id"]: model for model in models["data"]}\<close>. The key of an entry is
  its id, which must be hashable; a later entry under the same key replaces the earlier one.
\<close>

definition model_key :: "json \<Rightarrow> error + json" where
  "model_key model = ebind (subscript model ''id'') hash_key"

fun catalog_of :: "(json \<times> json) list \<Rightarrow> json list \<Rightarrow> error + (json \<times> json) list" where
  "catalog_of acc [] = Inr acc"
| "catalog_of acc (model # rest) =
     ebind (model_key model) (\<lambda>k. catalog_of (AList.update k model acc) rest)"

text \<open>
  The result pairs what the call returns or raises with the state it leaves behind: the
  reconciled key list is stored before anything can raise.
\<close>

definition get_all_models :: "world \<Rightarrow> bool \<Rightarrow> app_state \<Rightarrow> (error + json) \<times> app_state" where
  "get_all_models w raw s =
     (if (length (OPENAI_API_KEYS s) = 1 \<and> OPENAI_API_KEYS s ! 0 = '''')
         \<or> ENABLE_OPENAI_API s \<noteq> Some True
      then (Inr (JObj [(''data'', JList [])]), s)
      else
        let s1 = s\<lparr>OPENAI_API_KEYS :=
                     reconcile_keys (OPENAI_API_BASE_URLS s) (OPENAI_API_KEYS s)\<rparr>
        in (case traverse (\<lambda>(idx, url).
                   ebind (index (OPENAI_API_KEYS s1) idx) (\<lambda>key.
                     Inr (fetch_url w (url @ ''/models'') key)))
                 (enumerate 0 (OPENAI_API_BASE_URLS s1)) of
              Inl e \<Rightarrow> (Inl e, s1)
            | Inr responses \<Rightarrow>
                if raw then (Inr (JList responses), s1)
                else
                  (case ebind (traverse response_models responses) (\<lambda>model_lists.
                        ebind (merge_models_lists (OPENAI_API_BASE_URLS s1) model_lists)
                          (\<lambda>merged.
                        let data = merged @ moonshot_models (clock1 w)
                                          @ qianfan_models (clock2 w)
                        in ebind (catalog_of [] data) (\<lambda>catalog. Inr (data, catalog)))) of
                     Inl e \<Rightarrow> (Inl e, s1)
                   | Inr (data, catalog) \<Rightarrow>
                       (Inr (JObj [(''data'', JList data)]), s1\<lparr>MODELS := catalog\<rparr>))))"

subsection \<open>The configuration endpoints (lines 97-112)\<close>

definition update_openai_urls ::
  "world \<Rightarrow> string list \<Rightarrow> app_state \<Rightarrow> (error + json) \<times> app_state" where
  "update_openai_urls w urls s =
     (case get_all_models w False s of
        (Inl e, s1) \<Rightarrow> (Inl e, s1)
      | (Inr _, s1) \<Rightarrow>
          (Inr (JObj [(''OPENAI_API_BASE_URLS'', JList (map JStr urls))]),
           s1\<lparr>OPENAI_API_BASE_URLS := urls\<rparr>))"

definition update_openai_key ::
  "string list \<Rightarrow> app_state \<Rightarrow> (error + json) \<times> app_state" where
  "update_openai_key keys s =
     (Inr (JObj [(''OPENAI_API_KEYS'', JList (map JStr keys))]),
      s\<lparr>OPENAI_API_KEYS := keys\<rparr>)"

subsection \<open>The middleware \<^verbatim>\<open>check_url\<close> (lines 58-66)\<close>

text \<open>Every request passes here first: an empty catalog is refreshed before the handler runs.\<close>

definition check_url ::
  "world \<Rightarrow> (app_state \<Rightarrow> (error + 'a) \<times> app_state) \<Rightarrow> app_state
     \<Rightarrow> (error + 'a) \<times> app_state" where
  "check_url w call_next s =
     (if length (MODELS s) = 0 then
        (case get_all_models w False s of
           (Inl e, s1) \<Rightarrow> (Inl e, s1)
         | (Inr _, s1) \<Rightarrow> call_next s1)
      else call_next s)"

subsection \<open>\<^verbatim>\<open>get_models\<close> (lines 512-562)\<close>

text \<open>Lines 519-524: the allow-list filter for callers of role \<^verbatim>\<open>user\<close>.\<close>

definition filter_allowed :: "string list \<Rightarrow> json list \<Rightarrow> error + json list" where
  "filter_allowed allowed data =
     ebind (traverse (\<lambda>model. ebind (subscript model ''id'') (\<lambda>i.
              Inr (if i \<in> JStr ` set allowed then Some model else None))) data)
       (\<lambda>kept. Inr (List.map_filter id kept))"

text \<open>Lines 543-545: \<^verbatim>\<open>filter(lambda model: "gpt" in model["id"], response_data["data"])\<close>.\<close>

definition filter_gpt :: "json \<Rightarrow> error + json list" where
  "filter_gpt data =
     ebind (iter_json data) (\<lambda>models.
     ebind (traverse (\<lambda>model. ebind (subscript model ''id'') (\<lambda>i.
              ebind (contains i ''gpt'') (\<lambda>keep.
              Inr (if keep then Some model else None)))) models)
       (\<lambda>kept. Inr (List.map_filter id kept)))"

text \<open>
  Lines 538-547, the body of the \<^verbatim>\<open>try\<close>. The \<^verbatim>\<open>raise_for_status\<close> of
  \<^verbatim>\<open>requests\<close> raises for a status from 400 to 599. Storing under
  \<^verbatim>\<open>response_data["data"]\<close> needs a dictionary.
\<close>

definition listing_of :: "string \<Rightarrow> reply \<Rightarrow> error + json" where
  "listing_of url r =
     (if 400 \<le> status r \<and> status r < 600 then Inl (ClientError ''raise_for_status'')
      else
        ebind (json_body r) (\<lambda>response_data.
        if str_in ''api.openai.com'' url then
          ebind (subscript response_data ''data'') (\<lambda>data.
          ebind (filter_gpt data) (\<lambda>kept.
            (case response_data of
               JObj d \<Rightarrow> Inr (JObj (AList.update ''data'' (JList kept) d))
             | _ \<Rightarrow> Inl TypeError)))
        else Inr response_data))"

text \<open>
  Lines 548-562, the \<^verbatim>\<open>except\<close> clause. A \<^verbatim>\<open>requests\<close> response is truthy only when
  \<^verbatim>\<open>raise_for_status\<close> would pass, so \<^verbatim>\<open>r.status_code if r else 500\<close> is 500 for an
  error status.
\<close>

definition listing_error :: "world \<Rightarrow> error \<Rightarrow> reply option \<Rightarrow> error" where
  "listing_error w e r =
     HTTPException
       (case r of
          None \<Rightarrow> 500
        | Some rp \<Rightarrow> if 400 \<le> status rp \<and> status rp < 600 then 500 else status rp)
       (case r of
          None \<Rightarrow> ''Open WebUI: Server Connection Error''
        | Some rp \<Rightarrow>
            (case ebind (json_body rp) (\<lambda>res.
                    ebind (contains res ''error'') (\<lambda>has.
                    if has then
                      ebind (subscript res ''error'') (\<lambda>err.
                        Inr (''External: '' @ py_str w err))
                    else Inr ''Open WebUI: Server Connection Error'')) of
               Inl _ \<Rightarrow> ''External: '' @ exc_str w e
             | Inr detail \<Rightarrow> detail))"

definition get_models ::
  "world \<Rightarrow> int option \<Rightarrow> user \<Rightarrow> app_state \<Rightarrow> (error + json) \<times> app_state" where
  "get_models w url_idx usr s =
     (case url_idx of
        None \<Rightarrow>
          (case get_all_models w False s of
             (Inl e, s1) \<Rightarrow> (Inl e, s1)
           | (Inr models, s1) \<Rightarrow>
               if ENABLE_MODEL_FILTER s1 \<and> user_role usr = ''user'' then
                 (ebind (subscript models ''data'') (\<lambda>data.
                  ebind (iter_json data) (\<lambda>entries.
                  ebind (filter_allowed (MODEL_FILTER_LIST s1) entries) (\<lambda>kept.
                    Inr (JObj [(''data'', JList kept)])))), s1)
               else (Inr models, s1))
      | Some i \<Rightarrow>
          (ebind (py_index (OPENAI_API_BASE_URLS s) i) (\<lambda>url.
           ebind (py_index (OPENAI_API_KEYS s) i) (\<lambda>key.
             (case requests_get w (url @ ''/models'') key of
                Inl e \<Rightarrow> Inl (listing_error w e None)
              | Inr r \<Rightarrow>
                  (case listing_of url r of
                     Inl e \<Rightarrow> Inl (listing_error w e (Some r))
                   | Inr response_data \<Rightarrow> Inr response_data)))), s))"

subsection \<open>\<^verbatim>\<open>cleanup_response\<close> (lines 192-199)\<close>

text \<open>
  What is done to the backend connection and sent to the caller, in the order in which it
  happens. \<open>ReadBody\<close> is the reading of the whole body by \<^verbatim>\<open>r.json()\<close>; the closing
  events name the response and the session that are closed.
\<close>

datatype effect =
    OpenSession
  | SendRequest string
  | ReadBody
  | CloseResponse reply
  | CloseSession session
  | SendStart nat "(string \<times> string) list"
  | RecvChunk string
  | SendChunk string

definition cleanup_response :: "reply option \<Rightarrow> session option \<Rightarrow> effect list" where
  "cleanup_response response sess =
     (case response of None \<Rightarrow> [] | Some r \<Rightarrow> [CloseResponse r])
     @ (case sess of None \<Rightarrow> [] | Some x \<Rightarrow> [CloseSession x])"

subsection \<open>\<^verbatim>\<open>generate_chat_completion\<close> (lines 565-728)\<close>

text \<open>
  What the handler hands back to the framework: a decoded JSON body, a
  \<^verbatim>\<open>StreamingResponse\<close> over the backend's body stream with a status code, a header
  dictionary and the arguments of its background task \<open>cleanup_response\<close>, or the
  stream of one of the three provider adapters.
\<close>

datatype provider = Leagent | Moonshot | Qianfan

datatype response =
    JSONResponse json
  | StreamingResponse "string list" nat "(string \<times> string) list" "reply option" "session option"
  | Adapter provider "(string \<times> json) list"

text \<open>
  Modelled from the spec: the framework's \<^verbatim>\<open>StreamingResponse\<close> and \<^verbatim>\<open>BackgroundTask\<close>,
  which the handler constructs and which are not code of the module. Sections 4.5, 5 and 8:
  the relay sends the status code and headers it was given, copies the chunks from the
  backend connection to the caller as they arrive, in arrival order and without buffering
  the body, stops copying when the caller disconnects, and runs the deferred cleanup when
  the relay finishes, successfully or by the caller's disconnect. \<open>accepted\<close> is the number
  of chunks the caller takes before it disconnects.
\<close>

fun copy_chunks :: "string list \<Rightarrow> effect list" where
  "copy_chunks [] = []"
| "copy_chunks (c # cs) = RecvChunk c # SendChunk c # copy_chunks cs"

definition relay :: "nat \<Rightarrow> response \<Rightarrow> effect list" where
  "relay accepted resp =
     (case resp of
        StreamingResponse chunks code hs r sess \<Rightarrow>
          SendStart code hs # copy_chunks (take accepted chunks) @ cleanup_response r sess
      | _ \<Rightarrow> [])"

text \<open>The chunks that reach the caller, in the order in which they are sent.\<close>

fun sent_chunks :: "effect list \<Rightarrow> string list" where
  "sent_chunks [] = []"
| "sent_chunks (SendChunk c # es) = c # sent_chunks es"
| "sent_chunks (e # es) = sent_chunks es"

text \<open>
  Modelled from the spec: the framework around the handler, which is not code of the module.
  Everything that happens for one request: what the handler does, followed by the relay of
  the response it returned; an exception is reported and nothing is relayed.
\<close>

definition serve :: "nat \<Rightarrow> (error + response) \<times> effect list \<Rightarrow> effect list" where
  "serve accepted handled =
     snd handled @ (case fst handled of Inl e \<Rightarrow> [] | Inr resp \<Rightarrow> relay accepted resp)"

text \<open>Lines 578-583: the reserved prefixes, tested in this order on the lower-cased id.\<close>

definition reserved_prefix :: "string \<Rightarrow> provider option" where
  "reserved_prefix model_id =
     (if startswith (lower model_id) ''leagent'' then Some Leagent
      else if startswith (lower model_id) ''moonshot'' then Some Moonshot
      else if startswith (lower model_id) ''ernie'' then Some Qianfan
      else None)"

text \<open>\<^verbatim>\<open>v[-1]\<close>: the last element of a list or string; a dictionary has no key \<open>-1\<close>.\<close>

fun last_item :: "json \<Rightarrow> error + json" where
  "last_item (JList xs) = (if xs = [] then Inl IndexError else Inr (last xs))"
| "last_item (JStr s) = (if s = [] then Inl IndexError else Inr (JStr [last s]))"
| "last_item (JObj d) = Inl (KeyError (JInt (- 1)))"
| "last_item _ = Inl TypeError"

text \<open>
  Lines 855-872: \<open>handle_leagent_request\<close> reads the content of the last message before it
  builds its stream, so it needs the key \<^verbatim>\<open>messages\<close>. Lines 793-852: the other two
  adapters build their stream without reading the payload.
\<close>

definition handle_leagent_request :: "(string \<times> json) list \<Rightarrow> error + response" where
  "handle_leagent_request payload =
     ebind (subscript (JObj payload) ''messages'') (\<lambda>messages.
     ebind (if truthy messages then
              ebind (last_item messages) (\<lambda>message. subscript message ''content'')
            else Inr (JStr '''')) (\<lambda>user_message.
       Inr (Adapter Leagent payload)))"

definition handle_moonshot_request :: "(string \<times> json) list \<Rightarrow> error + response" where
  "handle_moonshot_request payload = Inr (Adapter Moonshot payload)"

definition handle_qianfan_request :: "(string \<times> json) list \<Rightarrow> error + response" where
  "handle_qianfan_request payload = Inr (Adapter Qianfan payload)"

text \<open>
  \<^verbatim>\<open>float(v)\<close> and \<^verbatim>\<open>int(v)\<close>. An integer up to \<open>2 ^ 53\<close> in magnitude is a float
  itself; a larger one is rounded or overflows. \<open>int\<close> of a float truncates towards zero.
\<close>

fun py_float :: "world \<Rightarrow> json \<Rightarrow> error + real" where
  "py_float w (JInt i) =
     (if \<bar>i\<bar> \<le> 2 ^ 53 then Inr (of_int i)
      else (case nearest_double w i of None \<Rightarrow> Inl OverflowError | Some r \<Rightarrow> Inr r))"
| "py_float w (JFloat r) = Inr r"
| "py_float w (JBool b) = Inr (if b then 1 else 0)"
| "py_float w (JStr s) = (case parse_float w s of None \<Rightarrow> Inl ValueError | Some r \<Rightarrow> Inr r)"
| "py_float w _ = Inl TypeError"

fun py_int :: "world \<Rightarrow> json \<Rightarrow> error + int" where
  "py_int w (JInt i) = Inr i"
| "py_int w (JFloat r) = Inr (if 0 \<le> r then \<lfloor>r\<rfloor> else \<lceil>r\<rceil>)"
| "py_int w (JBool b) = Inr (if b then 1 else 0)"
| "py_int w (JStr s) = (case parse_int w s of None \<Rightarrow> Inl ValueError | Some i \<Rightarrow> Inr i)"
| "py_int w _ = Inl TypeError"

text \<open>Lines 595-604: one of the three parameters that are tested for truth and passed to \<open>int\<close>.\<close>

definition override_int ::
  "world \<Rightarrow> (string \<times> json) list \<Rightarrow> string \<Rightarrow> (string \<times> json) list
     \<Rightarrow> error + (string \<times> json) list" where
  "override_int w ps k payload =
     (if truthy (dict_get ps k JNull) then
        ebind (py_int w (dict_get ps k JNull)) (\<lambda>i. Inr (AList.update k (JInt i) payload))
      else Inr payload)"

text \<open>Lines 609-617: the stop sequences, each a string decoded with \<open>unicode_escape\<close>.\<close>

definition decode_stop :: "world \<Rightarrow> json \<Rightarrow> error + json" where
  "decode_stop w stop =
     (case stop of
        JStr s \<Rightarrow> ebind (unicode_escape w s) (\<lambda>t. Inr (JStr t))
      | _ \<Rightarrow> Inl TypeError)"

text \<open>Lines 591-617, the block under \<^verbatim>\<open>if model_info.params:\<close>.\<close>

definition apply_params ::
  "world \<Rightarrow> (string \<times> json) list \<Rightarrow> (string \<times> json) list
     \<Rightarrow> error + (string \<times> json) list" where
  "apply_params w ps payload =
     ebind (if dict_get ps ''temperature'' JNull \<noteq> JNull then
              ebind (py_float w (dict_get ps ''temperature'' JNull)) (\<lambda>t.
                Inr (AList.update ''temperature'' (JFloat t) payload))
            else Inr payload) (\<lambda>p1.
     ebind (override_int w ps ''top_p'' p1) (\<lambda>p2.
     ebind (override_int w ps ''max_tokens'' p2) (\<lambda>p3.
     ebind (override_int w ps ''frequency_penalty'' p3) (\<lambda>p4.
     let p5 = (if truthy (dict_get ps ''seed'' JNull)
               then AList.update ''seed'' (dict_get ps ''seed'' JNull) p4 else p4)
     in if truthy (dict_get ps ''stop'' JNull) then
          ebind (iter_json (dict_get ps ''stop'' JNull)) (\<lambda>stops.
          ebind (traverse (decode_stop w) stops) (\<lambda>decoded.
            Inr (AList.update ''stop'' (JList decoded) p5)))
        else Inr p5))))"

text \<open>
  Lines 637-648, the \<^verbatim>\<open>for ... else\<close> over the messages: \<open>Some\<close> the updated list when a
  message of role \<^verbatim>\<open>system\<close> was found (the loop breaks there), \<open>None\<close> when the loop
  ran to its end.
\<close>

fun prepend_system :: "string \<Rightarrow> json list \<Rightarrow> error + json list option" where
  "prepend_system sys [] = Inr None"
| "prepend_system sys (message # rest) =
     ebind (get_attr message ''role'') (\<lambda>role.
     if role = JStr ''system'' then
       ebind (subscript message ''content'') (\<lambda>c.
         (case (message, c) of
            (JObj d, JStr old) \<Rightarrow>
              Inr (Some (JObj (AList.update ''content'' (JStr (sys @ old)) d) # rest))
          | _ \<Rightarrow> Inl TypeError))
     else
       ebind (prepend_system sys rest) (\<lambda>found. Inr (map_option (\<lambda>ms. message # ms) found)))"

text \<open>
  Lines 619-648. Only a list of messages gets as far as the \<^verbatim>\<open>insert\<close>: iterating a
  non-empty dictionary or string yields strings, which have no \<^verbatim>\<open>get\<close>.
\<close>

definition apply_system ::
  "world \<Rightarrow> user \<Rightarrow> (string \<times> json) list \<Rightarrow> (string \<times> json) list
     \<Rightarrow> error + (string \<times> json) list" where
  "apply_system w usr ps payload =
     (if truthy (dict_get ps ''system'' JNull) then
        ebind (if truthy (user_info usr) then get_attr (user_info usr) ''location''
               else Inr JNull) (\<lambda>location.
        ebind (prompt_template w (dict_get ps ''system'' JNull) (user_name usr) location) (\<lambda>sys.
        if truthy (dict_get payload ''messages'' JNull) then
          ebind (iter_json (dict_get payload ''messages'' JNull)) (\<lambda>messages.
          ebind (prepend_system sys messages) (\<lambda>found.
            (case found of
               Some updated \<Rightarrow> Inr (AList.update ''messages'' (JList updated) payload)
             | None \<Rightarrow>
                 Inr (AList.update ''messages''
                        (JList (JObj [(''role'', JStr ''system''), (''content'', JStr sys)]
                                # messages)) payload))))
        else Inr payload))
      else Inr payload)"

text \<open>Lines 585-651: the override pipeline, run only when the store has a profile.\<close>

definition override_pipeline ::
  "world \<Rightarrow> user \<Rightarrow> model_info option \<Rightarrow> (string \<times> json) list
     \<Rightarrow> error + (string \<times> json) list" where
  "override_pipeline w usr info payload =
     (case info of
        None \<Rightarrow> Inr payload
      | Some mi \<Rightarrow>
          let p0 = (case base_model_id mi of
                      None \<Rightarrow> payload
                    | Some b \<Rightarrow> if b \<noteq> [] then AList.update ''model'' (JStr b) payload
                                else payload)
          in ebind (if params mi \<noteq> [] then apply_params w (params mi) p0 else Inr p0)
               (apply_system w usr (params mi)))"

text \<open>
  Lines 653-669: the catalog lookup, the backend index of the entry, the user envelope of
  a pipeline model and the \<^verbatim>\<open>max_tokens\<close> default of the vision model.
\<close>

definition route ::
  "app_state \<Rightarrow> user \<Rightarrow> (string \<times> json) list \<Rightarrow> error + ((string \<times> json) list \<times> json)" where
  "route s usr payload =
     ebind (hash_key (dict_get payload ''model'' JNull)) (\<lambda>k.
     (case map_of (MODELS s) k of
        None \<Rightarrow> Inl (KeyError (dict_get payload ''model'' JNull))
      | Some model \<Rightarrow>
          ebind (subscript model ''urlIdx'') (\<lambda>idx.
          ebind (contains model ''pipeline'') (\<lambda>has.
          ebind (if has then ebind (get_attr model ''pipeline'') (\<lambda>p. Inr (truthy p))
                 else Inr False) (\<lambda>pipeline.
          let p1 = (if pipeline then
                      AList.update ''user''
                        (JObj [(''name'', JStr (user_name usr)), (''id'', JStr (user_id usr)),
                               (''email'', JStr (user_email usr)),
                               (''role'', JStr (user_role usr))]) payload
                    else payload);
              p2 = (if dict_get p1 ''model'' JNull = JStr ''gpt-4-vision-preview''
                       \<and> ''max_tokens'' \<notin> fst ` set p1
                    then AList.update ''max_tokens'' (JInt 4000) p1 else p1)
          in Inr (p2, idx))))))"

text \<open>
  \<^verbatim>\<open>await r.json()\<close>. When \<^verbatim>\<open>raise_for_status\<close> raises it releases the response first,
  and reading a released response raises.
\<close>

definition read_json :: "bool \<Rightarrow> reply \<Rightarrow> error + json" where
  "read_json released r =
     (if released then Inl (ClientError ''Connection closed'') else json_body r)"

text \<open>
  Lines 712-723, the \<^verbatim>\<open>except\<close> clause: the detail is read from the backend's body
  when there is a response that can still be read. An aiohttp response is always truthy, so
  the status of the exception is the backend's whenever a response exists.
\<close>

definition chat_error :: "world \<Rightarrow> error \<Rightarrow> reply option \<Rightarrow> bool \<Rightarrow> error" where
  "chat_error w e r released =
     HTTPException
       (case r of None \<Rightarrow> 500 | Some rp \<Rightarrow> status rp)
       (case r of
          None \<Rightarrow> ''Open WebUI: Server Connection Error''
        | Some rp \<Rightarrow>
            (case ebind (read_json released rp) (\<lambda>res.
                    ebind (contains res ''error'') (\<lambda>has.
                    if has then
                      ebind (subscript res ''error'') (\<lambda>err.
                      ebind (contains err ''message'') (\<lambda>has_message.
                      if has_message then
                        ebind (subscript err ''message'') (\<lambda>m.
                          Inr (''External: '' @ py_str w m))
                      else Inr (''External: '' @ py_str w err)))
                    else Inr ''Open WebUI: Server Connection Error'')) of
               Inl _ \<Rightarrow> ''External: '' @ exc_str w e
             | Inr detail \<Rightarrow> detail))"

text \<open>\<^verbatim>\<open>r.headers.get(name, default)\<close>: header names are compared without case.\<close>

definition header_get :: "(string \<times> string) list \<Rightarrow> string \<Rightarrow> string \<Rightarrow> string" where
  "header_get hs name dflt =
     (case find (\<lambda>kv. lower (fst kv) = lower name) hs of
        None \<Rightarrow> dflt
      | Some kv \<Rightarrow> snd kv)"

text \<open>
  \<^verbatim>\<open>dict(r.headers)\<close>: the dictionary is filled from the names of the header lines in
  order, each with what \<^verbatim>\<open>r.headers[name]\<close> gives, which is the first value sent under
  that name, compared without case. A repeated name keeps its first position and its first
  value.
\<close>

definition dict_of_headers :: "(string \<times> string) list \<Rightarrow> (string \<times> string) list" where
  "dict_of_headers hs =
     fold (\<lambda>kv d. AList.update (fst kv) (header_get hs (fst kv) '''') d) hs []"

text \<open>
  The local variables of the handler when the \<^verbatim>\<open>try\<close> block is left: what it returned
  or raised, \<open>r\<close>, \<open>session\<close>, \<open>streaming\<close>, whether the response has been released, and
  what was done to the connection so far.
\<close>

record attempt =
  outcome :: "error + response"
  var_r :: "reply option"
  var_session :: "session option"
  var_streaming :: bool
  var_released :: bool
  trace :: "effect list"

text \<open>Lines 687-711, the body of the \<^verbatim>\<open>try\<close>.\<close>

definition try_forward :: "world \<Rightarrow> string \<Rightarrow> string \<Rightarrow> json \<Rightarrow> attempt" where
  "try_forward w url key payload =
     (case http_post w (url @ ''/chat/completions'') key payload of
        SessionFailed e \<Rightarrow>
          \<lparr>outcome = Inl e, var_r = None, var_session = None, var_streaming = False,
           var_released = False, trace = []\<rparr>
      | RequestFailed e \<Rightarrow>
          \<lparr>outcome = Inl e, var_r = None, var_session = Some ClientSession,
           var_streaming = False, var_released = False,
           trace = [OpenSession, SendRequest (url @ ''/chat/completions'')]\<rparr>
      | Replied r \<Rightarrow>
          if 400 \<le> status r then
            \<lparr>outcome = Inl (ClientError ''raise_for_status''), var_r = Some r,
             var_session = Some ClientSession, var_streaming = False, var_released = True,
             trace = [OpenSession, SendRequest (url @ ''/chat/completions'')]\<rparr>
          else if str_in ''text/event-stream'' (header_get (headers r) ''Content-Type'' '''') then
            \<lparr>outcome = Inr (StreamingResponse (content r) (status r)
                              (dict_of_headers (headers r)) (Some r) (Some ClientSession)),
             var_r = Some r, var_session = Some ClientSession, var_streaming = True,
             var_released = False,
             trace = [OpenSession, SendRequest (url @ ''/chat/completions'')]\<rparr>
          else
            \<lparr>outcome = (case json_body r of Inl e \<Rightarrow> Inl e | Inr v \<Rightarrow> Inr (JSONResponse v)),
             var_r = Some r, var_session = Some ClientSession, var_streaming = False,
             var_released = False,
             trace = [OpenSession, SendRequest (url @ ''/chat/completions''), ReadBody]\<rparr>)"

text \<open>
  Lines 687-728: the \<^verbatim>\<open>try\<close> with its \<^verbatim>\<open>except\<close> (which reads the body once more when
  there is a response that has not been released) and its \<^verbatim>\<open>finally\<close>.
\<close>

definition forward :: "world \<Rightarrow> string \<Rightarrow> string \<Rightarrow> json \<Rightarrow> (error + response) \<times> effect list" where
  "forward w url key payload =
     (let a = try_forward w url key payload;
          handled = (case outcome a of
                       Inl e \<Rightarrow> (Inl (chat_error w e (var_r a) (var_released a)),
                                 if var_r a \<noteq> None \<and> \<not> var_released a then [ReadBody]
                                 else [])
                     | Inr resp \<Rightarrow> (Inr resp, []));
          finally = (if \<not> var_streaming a then
                       (case var_session a of
                          None \<Rightarrow> []
                        | Some sess \<Rightarrow>
                            (case var_r a of None \<Rightarrow> [] | Some r \<Rightarrow> [CloseResponse r])
                            @ [CloseSession sess])
                     else [])
      in (fst handled, trace a @ snd handled @ finally))"

text \<open>
  Lines 585-681 for a model id without a reserved prefix: the override pipeline, the routing
  and the backend's URL and key. The result is what goes out on the wire: the payload is
  sent as the text \<^verbatim>\<open>json.dumps(payload)\<close>, here the value itself.
\<close>

definition outbound ::
  "world \<Rightarrow> app_state \<Rightarrow> (string \<times> json) list \<Rightarrow> user \<Rightarrow> string
     \<Rightarrow> error + (string \<times> string \<times> (string \<times> json) list)" where
  "outbound w s form_data usr model_id =
     ebind (override_pipeline w usr (get_model_by_id w (JStr model_id)) form_data) (\<lambda>payload.
     ebind (route s usr payload) (\<lambda>(payload', idx).
     ebind (list_subscript (OPENAI_API_BASE_URLS s) idx) (\<lambda>url.
     ebind (list_subscript (OPENAI_API_KEYS s) idx) (\<lambda>key.
       Inr (url, key, payload')))))"

text \<open>
  The whole handler. The request body is a dictionary; a model id that is not a string has
  no \<^verbatim>\<open>lower\<close>. The path parameter \<^verbatim>\<open>url_idx\<close> is accepted and never read.
\<close>

definition generate_chat_completion ::
  "world \<Rightarrow> app_state \<Rightarrow> (string \<times> json) list \<Rightarrow> int option \<Rightarrow> user
     \<Rightarrow> (error + response) \<times> effect list" where
  "generate_chat_completion w s form_data url_idx usr =
     (case dict_get form_data ''model'' JNull of
        JStr model_id \<Rightarrow>
          (case reserved_prefix model_id of
             Some Leagent \<Rightarrow> (handle_leagent_request form_data, [])
           | Some Moonshot \<Rightarrow> (handle_moonshot_request form_data, [])
           | Some Qianfan \<Rightarrow> (handle_qianfan_request form_data, [])
           | None \<Rightarrow>
               (case outbound w s form_data usr model_id of
                  Inl e \<Rightarrow> (Inl e, [])
                | Inr (url, key, payload) \<Rightarrow> forward w url key (JObj payload)))
      | _ \<Rightarrow> (Inl AttributeError, []))"

section \<open>Reference points of the specification and sample configurations\<close>

text \<open>The one URL the module names in full (line 119), the canonical OpenAI endpoint.\<close>

definition canonical_openai_url :: string where
  "canonical_openai_url = ''https://api.openai.com/v1''"

text \<open>
  The specification's \<^verbatim>\<open>ModelNotFound\<close>: a user-facing error of the 401/404 class, that
  is an \<open>HTTPException\<close> with one of these status codes.
\<close>

definition spec_ModelNotFound :: "error + response \<Rightarrow> bool" where
  "spec_ModelNotFound res =
     (case res of Inl (HTTPException code detail) \<Rightarrow> code = 401 \<or> code = 404 | _ \<Rightarrow> False)"

text \<open>
  The id that is looked up in the catalog (lines 585-587): the base-model alias of the
  profile when there is a profile with a non-empty alias, else the requested id.
\<close>

definition alias_of :: "model_info option \<Rightarrow> string \<Rightarrow> string" where
  "alias_of info model_id =
     (case info of
        None \<Rightarrow> model_id
      | Some mi \<Rightarrow>
          (case base_model_id mi of
             None \<Rightarrow> model_id
           | Some b \<Rightarrow> if b \<noteq> [] then b else model_id))"

text \<open>A message of role \<^verbatim>\<open>system\<close>, as the test \<^verbatim>\<open>message.get("role") == "system"\<close> sees it.\<close>

definition has_role_system :: "json \<Rightarrow> bool" where
  "has_role_system message = (get_attr message ''role'' = Inr (JStr ''system''))"

text \<open>A model whose id holds \<^verbatim>\<open>gpt\<close>, as the test \<^verbatim>\<open>"gpt" in model["id"]\<close> sees it.\<close>

definition gpt_model :: "json \<Rightarrow> bool" where
  "gpt_model model =
     (case subscript model ''id'' of
        Inl e \<Rightarrow> False
      | Inr i \<Rightarrow> contains i ''gpt'' = Inr True)"

text \<open>A template helper that returns a string template as it is.\<close>

definition plain_template :: "json \<Rightarrow> string \<Rightarrow> json \<Rightarrow> error + string" where
  "plain_template template nm location =
     (case template of JStr t \<Rightarrow> Inr t | _ \<Rightarrow> Inl TypeError)"

text \<open>Catalog bodies as an OpenAI-compatible backend sends them.\<close>

definition listing :: "string list \<Rightarrow> json" where
  "listing ids = JObj [(''object'', JStr ''list''),
                       (''data'', JList (map (\<lambda>i. JObj [(''id'', JStr i)]) ids))]"

text \<open>
  A sample environment: two backends that answer the model-list request, every other URL
  times out; the chat endpoint answers 200 with the payload it was sent as its JSON body.
\<close>

definition sample_world :: world where
  "sample_world =
     \<lparr>http_get_json = (\<lambda>url key.
          if url = ''http://a/models'' then Inr (listing [''m-a''])
          else if url = ''http://b/models'' then Inr (listing [''m-b''])
          else Inl (ClientError ''timeout'')),
      requests_get = (\<lambda>url key. Inl (ClientError ''unreachable'')),
      http_post = (\<lambda>url key payload.
          Replied \<lparr>status = 200, headers = [(''Content-Type'', ''application/json'')],
                   content = [], json_body = Inr payload\<rparr>),
      clock1 = 0,
      clock2 = 0,
      get_model_by_id = (\<lambda>model_id. None),
      prompt_template = plain_template,
      parse_float = (\<lambda>s. None),
      parse_int = (\<lambda>s. None),
      nearest_double = (\<lambda>i. None),
      unicode_escape = (\<lambda>s. Inr s),
      py_str = (\<lambda>v. ''''),
      exc_str = (\<lambda>e. case e of ClientError m \<Rightarrow> m | _ \<Rightarrow> ''error'')\<rparr>"

definition sample_state :: app_state where
  "sample_state =
     \<lparr>ENABLE_OPENAI_API = Some True,
      OPENAI_API_BASE_URLS = [''http://a''],
      OPENAI_API_KEYS = [''key-a''],
      ENABLE_MODEL_FILTER = False,
      MODEL_FILTER_LIST = [],
      MODELS = []\<rparr>"

definition sample_user :: user where
  "sample_user =
     \<lparr>user_name = ''Ann'', user_id = ''u1'', user_email = ''ann@example.org'',
      user_role = ''user'', user_info = JNull\<rparr>"

text \<open>The sample environment with an override profile stored for every model id.\<close>

definition profile_world :: "model_info \<Rightarrow> world" where
  "profile_world mi = sample_world\<lparr>get_model_by_id := (\<lambda>model_id. Some mi)\<rparr>"

text \<open>The sample state after one refresh of the catalog.\<close>

definition refreshed_state :: app_state where
  "refreshed_state = snd (get_all_models sample_world False sample_state)"

text \<open>
  The sample environment with a chat endpoint that answers with an event stream of two
  chunks under the given status code.
\<close>

definition stream_world :: "nat \<Rightarrow> world" where
  "stream_world code =
     sample_world\<lparr>http_post := (\<lambda>url key payload.
        Replied \<lparr>status = code, headers = [(''Content-Type'', ''text/event-stream'')],
                 content = [''data: a'', ''data: b''],
                 json_body = Inl (ClientError ''body is not JSON'')\<rparr>)\<rparr>"

text \<open>
  What backend \<open>idx\<close> adds to the merged list during a refresh of state \<open>s\<close>: its response,
  reduced to a model list (lines 272-276) and turned into tagged entries (lines 207-222).
\<close>

definition backend_part :: "world \<Rightarrow> app_state \<Rightarrow> nat \<Rightarrow> error + json list" where
  "backend_part w s idx =
     ebind (response_models
              (fetch_url w (OPENAI_API_BASE_URLS s ! idx @ ''/models'')
                 (reconcile_keys (OPENAI_API_BASE_URLS s) (OPENAI_API_KEYS s) ! idx)))
       (backend_entries (OPENAI_API_BASE_URLS s) idx)"

text \<open>Backend \<open>idx\<close> contributes an entry for the model id \<open>i\<close>.\<close>

definition contributes :: "world \<Rightarrow> app_state \<Rightarrow> nat \<Rightarrow> string \<Rightarrow> bool" where
  "contributes w s idx i =
     (case backend_part w s idx of
        Inl e \<Rightarrow> False
      | Inr part \<Rightarrow> \<exists>entry \<in> set part. subscript entry ''id'' = Inr (JStr i))"

text \<open>The ids of the static entries of lines 287-453.\<close>

definition static_ids :: "string list" where
  "static_ids =
     [''moonshot-v1-8k'', ''moonshot-v1-32k'', ''moonshot-v1-64k'',
      ''ERNIE-4.0-8K'', ''ERNIE-4.0-8K-Preview'', ''ERNIE-4.0-8K-Preview-0518'',
      ''ERNIE-4.0-8K-Latest'', ''ERNIE-4.0-8K-0329'', ''ERNIE-4.0-8K-0613'',
      ''ERNIE-4.0-Turbo-8K'', ''ERNIE-4.0-Turbo-8K-Preview'', ''ERNIE-3.5-8K'']"

text \<open>
  Two configured backends, and an environment in which the second one answers with a JSON
  object whose \<^verbatim>\<open>data\<close> member is an object instead of a list.
\<close>

definition two_backends :: app_state where
  "two_backends =
     sample_state\<lparr>OPENAI_API_BASE_URLS := [''http://a'', ''http://b''],
                  OPENAI_API_KEYS := [''key-a'', ''key-b'']\<rparr>"

text \<open>The state with two backends after one refresh of the catalog.\<close>

definition both_refreshed :: app_state where
  "both_refreshed = snd (get_all_models sample_world False two_backends)"

definition odd_shape_world :: world where
  "odd_shape_world =
     sample_world\<lparr>http_get_json := (\<lambda>url key.
        if url = ''http://a/models'' then Inr (listing [''m-a''])
        else if url = ''http://b/models'' then
          Inr (JObj [(''data'', JObj [(''models'', JList [])])])
        else Inl (ClientError ''timeout''))\<rparr>"

text \<open>
  The canonical OpenAI endpoint next to another backend, and an environment in which every
  direct model listing answers with the same two models.
\<close>

definition openai_state :: app_state where
  "openai_state =
     sample_state\<lparr>OPENAI_API_BASE_URLS := [''https://api.openai.com/v1'', ''http://b''],
                  OPENAI_API_KEYS := [''sk-1'', ''key-b'']\<rparr>"

definition listing_world :: world where
  "listing_world =
     sample_world\<lparr>requests_get := (\<lambda>url key.
        Inr \<lparr>status = 200, headers = [(''Content-Type'', ''application/json'')],
             content = [], json_body = Inr (listing [''gpt-4'', ''dall-e-3''])\<rparr>)\<rparr>"

text \<open>
  An environment in which both backends list the model \<^verbatim>\<open>shared\<close>, and the second one also
  lists a model under the id of a static entry.
\<close>

definition overlap_world :: world where
  "overlap_world =
     sample_world\<lparr>http_get_json := (\<lambda>url key.
        if url = ''http://a/models'' then Inr (listing [''shared'', ''m-a''])
        else if url = ''http://b/models'' then Inr (listing [''shared'', ''moonshot-v1-8k''])
        else Inl (ClientError ''timeout''))\<rparr>"

text \<open>
  The sample environment with a chat endpoint that answers with an event stream and sets
  two cookies, each in a header line of its own.
\<close>

definition cookie_world :: world where
  "cookie_world =
     sample_world\<lparr>http_post := (\<lambda>url key payload.
        Replied \<lparr>status = 200,
                 headers = [(''Content-Type'', ''text/event-stream''),
                            (''Set-Cookie'', ''a=1''), (''Set-Cookie'', ''b=2'')],
                 content = [''data: a''],
                 json_body = Inl (ClientError ''body is not JSON'')\<rparr>)\<rparr>"

section \<open>Basic facts about the operators\<close>

lemma ebind_simps [simp]:
  "ebind (Inl e) f = Inl e"
  "ebind (Inr x) f = f x"
  by (simp_all add: ebind_def)

lemma ebind_eq_Inr: "ebind m f = Inr y \<longleftrightarrow> (\<exists>x. m = Inr x \<and> f x = Inr y)"
  by (cases m) simp_all

lemma dict_get_update:
  "dict_get (AList.update k v d) k' dflt = (if k' = k then v else dict_get d k' dflt)"
  by (simp add: dict_get_def update_conv')

section \<open>Key reconciliation inside the aggregation pass\<close>

lemma length_reconcile_keys: "length (reconcile_keys urls keys) = length urls"
  by (simp add: reconcile_keys_def)

lemma traverse_fetch:
  "n + length urls \<le> length ks \<Longrightarrow>
   traverse (\<lambda>(idx, url). ebind (index ks idx) (\<lambda>key. Inr (f url key))) (enumerate n urls)
     = Inr (map (\<lambda>(url, key). f url key) (zip urls (drop n ks)))"
proof (induction urls arbitrary: n)
  case Nil
  then show ?case by simp
next
  case (Cons u us)
  then have lt: "n < length ks" and rest: "Suc n + length us \<le> length ks" by simp_all
  have d: "drop n ks = ks ! n # drop (Suc n) ks"
    using lt by (simp add: Cons_nth_drop_Suc)
  show ?case
    using Cons.IH [OF rest] lt by (simp add: index_def d)
qed

text \<open>
  When the fast path is not taken, the requests are issued pairwise over the URL list and
  the reconciled key list; no index is out of range.
\<close>

lemma get_all_models_aggregate:
  assumes "\<not> (length (OPENAI_API_KEYS s) = 1 \<and> OPENAI_API_KEYS s ! 0 = '''')"
    and "ENABLE_OPENAI_API s = Some True"
  shows "get_all_models w raw s =
     (let s1 = s\<lparr>OPENAI_API_KEYS :=
                     reconcile_keys (OPENAI_API_BASE_URLS s) (OPENAI_API_KEYS s)\<rparr>;
          responses = map (\<lambda>(url, key). fetch_url w (url @ ''/models'') key)
                        (zip (OPENAI_API_BASE_URLS s)
                          (reconcile_keys (OPENAI_API_BASE_URLS s) (OPENAI_API_KEYS s)))
      in if raw then (Inr (JList responses), s1)
         else
           (case ebind (traverse response_models responses) (\<lambda>model_lists.
                 ebind (merge_models_lists (OPENAI_API_BASE_URLS s) model_lists)
                   (\<lambda>merged.
                 let data = merged @ moonshot_models (clock1 w) @ qianfan_models (clock2 w)
                 in ebind (catalog_of [] data) (\<lambda>catalog. Inr (data, catalog)))) of
              Inl e \<Rightarrow> (Inl e, s1)
            | Inr (data, catalog) \<Rightarrow>
                (Inr (JObj [(''data'', JList data)]), s1\<lparr>MODELS := catalog\<rparr>)))"
proof -
  let ?urls = "OPENAI_API_BASE_URLS s"
  let ?ks = "reconcile_keys ?urls (OPENAI_API_KEYS s)"
  have tr: "traverse (\<lambda>(idx, url). ebind (index ?ks idx)
                (\<lambda>key. Inr (fetch_url w (url @ ''/models'') key))) (enumerate 0 ?urls)
            = Inr (map (\<lambda>(url, key). fetch_url w (url @ ''/models'') key) (zip ?urls ?ks))"
    using traverse_fetch [of 0 ?urls ?ks "\<lambda>url key. fetch_url w (url @ ''/models'') key"]
    by (simp add: length_reconcile_keys)
  have slow: "\<not> ((length (OPENAI_API_KEYS s) = 1 \<and> OPENAI_API_KEYS s ! 0 = '''')
         \<or> ENABLE_OPENAI_API s \<noteq> Some True)"
    using assms by blast
  show ?thesis
    unfolding get_all_models_def if_not_P [OF slow] Let_def
    by (simp add: tr)
qed

text \<open>
  Claim C8, amended. The reconciliation rule runs at the start of an aggregation pass, and
  not when the lists are updated. Every aggregation pass of \<open>get_all_models\<close> (one that is
  not cut short by the fast path) first stores the reconciled key list: it has exactly the
  length \<open>U\<close> of the URL list, being the first \<open>U\<close> keys when there were more keys than URLs
  and the old keys followed by empty strings when there were fewer, and the requests of the
  pass are made with the URLs paired with these keys. The state is arbitrary, so this holds
  for the first pass after any update of the URL or key list.
\<close>

theorem reconciliation_before_aggregation:
  assumes "\<not> (length (OPENAI_API_KEYS s) = 1 \<and> OPENAI_API_KEYS s ! 0 = '''')"
    and "ENABLE_OPENAI_API s = Some True"
  shows "OPENAI_API_KEYS (snd (get_all_models w raw s))
           = reconcile_keys (OPENAI_API_BASE_URLS s) (OPENAI_API_KEYS s)
       \<and> OPENAI_API_BASE_URLS (snd (get_all_models w raw s)) = OPENAI_API_BASE_URLS s
       \<and> length (OPENAI_API_KEYS (snd (get_all_models w raw s)))
           = length (OPENAI_API_BASE_URLS s)
       \<and> (length (OPENAI_API_KEYS s) > length (OPENAI_API_BASE_URLS s) \<longrightarrow>
            OPENAI_API_KEYS (snd (get_all_models w raw s))
              = take (length (OPENAI_API_BASE_URLS s)) (OPENAI_API_KEYS s))
       \<and> (length (OPENAI_API_KEYS s) < length (OPENAI_API_BASE_URLS s) \<longrightarrow>
            OPENAI_API_KEYS (snd (get_all_models w raw s))
              = OPENAI_API_KEYS s
                  @ replicate (length (OPENAI_API_BASE_URLS s) - length (OPENAI_API_KEYS s)) '''')
       \<and> fst (get_all_models w True s)
           = Inr (JList (map (\<lambda>(url, key). fetch_url w (url @ ''/models'') key)
                    (zip (OPENAI_API_BASE_URLS s)
                         (reconcile_keys (OPENAI_API_BASE_URLS s) (OPENAI_API_KEYS s)))))"
proof -
  let ?urls = "OPENAI_API_BASE_URLS s"
  let ?ks = "reconcile_keys ?urls (OPENAI_API_KEYS s)"
  note agg = get_all_models_aggregate [OF assms]
  have keys: "OPENAI_API_KEYS (snd (get_all_models w raw s)) = ?ks"
    by (cases raw) (simp_all add: agg Let_def split: sum.splits prod.splits)
  have urls: "OPENAI_API_BASE_URLS (snd (get_all_models w raw s)) = ?urls"
    by (cases raw) (simp_all add: agg Let_def split: sum.splits prod.splits)
  have rawres: "fst (get_all_models w True s)
      = Inr (JList (map (\<lambda>(url, key). fetch_url w (url @ ''/models'') key) (zip ?urls ?ks)))"
    by (simp add: agg Let_def)
  show ?thesis
    unfolding keys urls rawres
    by (simp add: length_reconcile_keys) (simp add: reconcile_keys_def)
qed

text \<open>
  The same at concrete inputs: three keys stored for two URLs are cut to the first two, and
  one key stored for two URLs is padded with one empty string.
\<close>

theorem reconciliation_before_aggregation_witness:
  "OPENAI_API_KEYS (snd (get_all_models sample_world False
      (snd (update_openai_key [''k1'', ''k2'', ''k3'']
         (sample_state\<lparr>OPENAI_API_BASE_URLS := [''http://a'', ''http://b'']\<rparr>)))))
     = [''k1'', ''k2'']
   \<and> OPENAI_API_KEYS (snd (get_all_models sample_world False
      (snd (update_openai_key [''k1'']
         (sample_state\<lparr>OPENAI_API_BASE_URLS := [''http://a'', ''http://b'']\<rparr>)))))
     = [''k1'', '''']"
proof -
  let ?s0 = "sample_state\<lparr>OPENAI_API_BASE_URLS := [''http://a'', ''http://b'']\<rparr>"
  let ?s3 = "snd (update_openai_key [''k1'', ''k2'', ''k3''] ?s0)"
  let ?s1 = "snd (update_openai_key [''k1''] ?s0)"
  have a3: "\<not> (length (OPENAI_API_KEYS ?s3) = 1 \<and> OPENAI_API_KEYS ?s3 ! 0 = '''')"
    and e3: "ENABLE_OPENAI_API ?s3 = Some True"
    and a1: "\<not> (length (OPENAI_API_KEYS ?s1) = 1 \<and> OPENAI_API_KEYS ?s1 ! 0 = '''')"
    and e1: "ENABLE_OPENAI_API ?s1 = Some True"
    by (simp_all add: update_openai_key_def sample_state_def)
  show ?thesis
    using reconciliation_before_aggregation [OF a3 e3, of sample_world False]
      reconciliation_before_aggregation [OF a1 e1, of sample_world False]
    by (simp add: update_openai_key_def sample_state_def reconcile_keys_def)
qed

text \<open>
  The claim as stated has the rule applied whenever the lists are updated, and fails there:
  the update operations store the lists as they are given. With two backends and a catalog
  already filled (so that the middleware does not refresh), an update of the keys to the
  single key \<^verbatim>\<open>k1\<close> leaves one key for two URLs; the model listing for index 1 and a chat
  completion for a model of backend 1 then read the short list and end with \<open>IndexError\<close>.
  An update of the URL list to three URLs reconciles the keys against the two old URLs and
  leaves two keys for three URLs.
\<close>

theorem update_stores_unreconciled_keys_counterexample:
  "0 < length (MODELS both_refreshed)
   \<and> OPENAI_API_KEYS (snd (check_url sample_world (update_openai_key [''k1'']) both_refreshed))
       = [''k1'']
   \<and> OPENAI_API_BASE_URLS
         (snd (check_url sample_world (update_openai_key [''k1'']) both_refreshed))
       = [''http://a'', ''http://b'']
   \<and> fst (check_url sample_world (get_models sample_world (Some 1) sample_user)
         (snd (check_url sample_world (update_openai_key [''k1'']) both_refreshed)))
       = Inl IndexError
   \<and> fst (generate_chat_completion sample_world
         (snd (check_url sample_world (update_openai_key [''k1'']) both_refreshed))
         [(''model'', JStr ''m-b'')] None sample_user)
       = Inl IndexError
   \<and> OPENAI_API_KEYS
         (snd (check_url sample_world
            (update_openai_urls sample_world [''http://a'', ''http://b'', ''http://c''])
            both_refreshed))
       = [''key-a'', ''key-b'']
   \<and> OPENAI_API_BASE_URLS
         (snd (check_url sample_world
            (update_openai_urls sample_world [''http://a'', ''http://b'', ''http://c''])
            both_refreshed))
       = [''http://a'', ''http://b'', ''http://c'']"
  by code_simp

section \<open>The override pipeline\<close>

lemma override_int_cases:
  assumes "override_int w ps k p = Inr p'"
  shows "(\<not> truthy (dict_get ps k JNull) \<and> p' = p)
       \<or> (truthy (dict_get ps k JNull)
          \<and> (\<exists>i. py_int w (dict_get ps k JNull) = Inr i \<and> p' = AList.update k (JInt i) p))"
  using assms by (auto simp: override_int_def ebind_eq_Inr split: if_splits)

lemma override_int_frame:
  "override_int w ps k p = Inr p' \<Longrightarrow> k' \<noteq> k \<Longrightarrow> map_of p' k' = map_of p k'"
  by (auto dest!: override_int_cases simp: update_conv')

lemma override_int_falsy:
  "override_int w ps k p = Inr p' \<Longrightarrow> \<not> truthy (dict_get ps k JNull) \<Longrightarrow> p' = p"
  by (auto dest!: override_int_cases)

lemma apply_params_stages:
  assumes "apply_params w ps p = Inr p'"
  obtains p1 p2 p3 p4 p5 where
    "(if dict_get ps ''temperature'' JNull \<noteq> JNull then
        ebind (py_float w (dict_get ps ''temperature'' JNull)) (\<lambda>t.
          Inr (AList.update ''temperature'' (JFloat t) p))
      else Inr p) = Inr p1"
    "override_int w ps ''top_p'' p1 = Inr p2"
    "override_int w ps ''max_tokens'' p2 = Inr p3"
    "override_int w ps ''frequency_penalty'' p3 = Inr p4"
    "p5 = (if truthy (dict_get ps ''seed'' JNull)
           then AList.update ''seed'' (dict_get ps ''seed'' JNull) p4 else p4)"
    "(if truthy (dict_get ps ''stop'' JNull) then
        ebind (iter_json (dict_get ps ''stop'' JNull)) (\<lambda>stops.
        ebind (traverse (decode_stop w) stops) (\<lambda>decoded.
          Inr (AList.update ''stop'' (JList decoded) p5)))
      else Inr p5) = Inr p'"
  using assms unfolding apply_params_def ebind_eq_Inr Let_def by blast


lemma apply_params_frame:
  assumes "apply_params w ps p = Inr p'"
    and "k \<notin> {''temperature'', ''top_p'', ''max_tokens'', ''frequency_penalty'', ''seed'', ''stop''}"
  shows "map_of p' k = map_of p k"
proof -
  from assms(1) obtain p1 p2 p3 p4 p5 where
    s1: "(if dict_get ps ''temperature'' JNull \<noteq> JNull then
        ebind (py_float w (dict_get ps ''temperature'' JNull)) (\<lambda>t.
          Inr (AList.update ''temperature'' (JFloat t) p))
      else Inr p) = Inr p1"
    and s2: "override_int w ps ''top_p'' p1 = Inr p2"
    and s3: "override_int w ps ''max_tokens'' p2 = Inr p3"
    and s4: "override_int w ps ''frequency_penalty'' p3 = Inr p4"
    and s5: "p5 = (if truthy (dict_get ps ''seed'' JNull)
           then AList.update ''seed'' (dict_get ps ''seed'' JNull) p4 else p4)"
    and s6: "(if truthy (dict_get ps ''stop'' JNull) then
        ebind (iter_json (dict_get ps ''stop'' JNull)) (\<lambda>stops.
        ebind (traverse (decode_stop w) stops) (\<lambda>decoded.
          Inr (AList.update ''stop'' (JList decoded) p5)))
      else Inr p5) = Inr p'"
    by (rule apply_params_stages)
  from assms(2) have k: "k \<noteq> ''temperature''" "k \<noteq> ''top_p''" "k \<noteq> ''max_tokens''"
    "k \<noteq> ''frequency_penalty''" "k \<noteq> ''seed''" "k \<noteq> ''stop''" by auto
  have "map_of p1 k = map_of p k"
    using s1 k(1) by (auto simp: ebind_eq_Inr update_conv' split: if_splits)
  moreover have "map_of p2 k = map_of p1 k" using s2 k(2) by (rule override_int_frame)
  moreover have "map_of p3 k = map_of p2 k" using s3 k(3) by (rule override_int_frame)
  moreover have "map_of p4 k = map_of p3 k" using s4 k(4) by (rule override_int_frame)
  moreover have "map_of p5 k = map_of p4 k" using s5 k(5) by (simp add: update_conv')
  moreover have "map_of p' k = map_of p5 k"
    using s6 k(6) by (auto simp: ebind_eq_Inr update_conv' split: if_splits)
  ultimately show ?thesis by simp
qed


lemma apply_params_falsy:
  assumes "apply_params w ps p = Inr p'"
    and "k \<in> {''top_p'', ''max_tokens'', ''frequency_penalty'', ''seed'', ''stop''}"
    and "\<not> truthy (dict_get ps k JNull)"
  shows "map_of p' k = map_of p k"
proof -
  from assms(1) obtain p1 p2 p3 p4 p5 where
    s1: "(if dict_get ps ''temperature'' JNull \<noteq> JNull then
        ebind (py_float w (dict_get ps ''temperature'' JNull)) (\<lambda>t.
          Inr (AList.update ''temperature'' (JFloat t) p))
      else Inr p) = Inr p1"
    and s2: "override_int w ps ''top_p'' p1 = Inr p2"
    and s3: "override_int w ps ''max_tokens'' p2 = Inr p3"
    and s4: "override_int w ps ''frequency_penalty'' p3 = Inr p4"
    and s5: "p5 = (if truthy (dict_get ps ''seed'' JNull)
           then AList.update ''seed'' (dict_get ps ''seed'' JNull) p4 else p4)"
    and s6: "(if truthy (dict_get ps ''stop'' JNull) then
        ebind (iter_json (dict_get ps ''stop'' JNull)) (\<lambda>stops.
        ebind (traverse (decode_stop w) stops) (\<lambda>decoded.
          Inr (AList.update ''stop'' (JList decoded) p5)))
      else Inr p5) = Inr p'"
    by (rule apply_params_stages)
  have k0: "k \<noteq> ''temperature''" using assms(2) by auto
  have e1: "map_of p1 k = map_of p k"
    using s1 k0 by (auto simp: ebind_eq_Inr update_conv' split: if_splits)
  have e2: "map_of p2 k = map_of p1 k"
    using s2 assms(3) by (cases "k = ''top_p''") (auto dest: override_int_falsy override_int_frame)
  have e3: "map_of p3 k = map_of p2 k"
    using s3 assms(3)
    by (cases "k = ''max_tokens''") (auto dest: override_int_falsy override_int_frame)
  have e4: "map_of p4 k = map_of p3 k"
    using s4 assms(3)
    by (cases "k = ''frequency_penalty''") (auto dest: override_int_falsy override_int_frame)
  have e5: "map_of p5 k = map_of p4 k"
    using s5 assms(3) by (cases "k = ''seed''") (auto simp: update_conv')
  have e6: "map_of p' k = map_of p5 k"
    using s6 assms(3)
    by (cases "k = ''stop''") (auto simp: ebind_eq_Inr update_conv' split: if_splits)
  show ?thesis using e1 e2 e3 e4 e5 e6 by simp
qed

lemma apply_params_temperature:
  assumes "apply_params w ps p = Inr p'"
    and "dict_get ps ''temperature'' JNull \<noteq> JNull"
  shows "\<exists>t. py_float w (dict_get ps ''temperature'' JNull) = Inr t
            \<and> map_of p' ''temperature'' = Some (JFloat t)"
proof -
  from assms(1) obtain p1 p2 p3 p4 p5 where
    s1: "(if dict_get ps ''temperature'' JNull \<noteq> JNull then
        ebind (py_float w (dict_get ps ''temperature'' JNull)) (\<lambda>t.
          Inr (AList.update ''temperature'' (JFloat t) p))
      else Inr p) = Inr p1"
    and s2: "override_int w ps ''top_p'' p1 = Inr p2"
    and s3: "override_int w ps ''max_tokens'' p2 = Inr p3"
    and s4: "override_int w ps ''frequency_penalty'' p3 = Inr p4"
    and s5: "p5 = (if truthy (dict_get ps ''seed'' JNull)
           then AList.update ''seed'' (dict_get ps ''seed'' JNull) p4 else p4)"
    and s6: "(if truthy (dict_get ps ''stop'' JNull) then
        ebind (iter_json (dict_get ps ''stop'' JNull)) (\<lambda>stops.
        ebind (traverse (decode_stop w) stops) (\<lambda>decoded.
          Inr (AList.update ''stop'' (JList decoded) p5)))
      else Inr p5) = Inr p'"
    by (rule apply_params_stages)
  from s1 assms(2) obtain t where t: "py_float w (dict_get ps ''temperature'' JNull) = Inr t"
    and p1: "p1 = AList.update ''temperature'' (JFloat t) p"
    by (auto simp: ebind_eq_Inr)
  have "map_of p1 ''temperature'' = Some (JFloat t)" by (simp add: p1 update_conv')
  moreover have "map_of p2 ''temperature'' = map_of p1 ''temperature''"
    using s2 by (rule override_int_frame) simp
  moreover have "map_of p3 ''temperature'' = map_of p2 ''temperature''"
    using s3 by (rule override_int_frame) simp
  moreover have "map_of p4 ''temperature'' = map_of p3 ''temperature''"
    using s4 by (rule override_int_frame) simp
  moreover have "map_of p5 ''temperature'' = map_of p4 ''temperature''"
    using s5 by (simp add: update_conv')
  moreover have "map_of p' ''temperature'' = map_of p5 ''temperature''"
    using s6 by (auto simp: ebind_eq_Inr update_conv' split: if_splits)
  ultimately show ?thesis using t by simp
qed

lemma apply_system_frame:
  assumes "apply_system w usr ps p = Inr p'" and "k \<noteq> ''messages''"
  shows "map_of p' k = map_of p k"
  using assms
  by (auto simp: apply_system_def ebind_eq_Inr update_conv' split: if_splits option.splits)

lemma override_pipeline_stages:
  assumes "override_pipeline w usr (Some mi) payload = Inr payload'"
  obtains p0 pa where
    "p0 = (case base_model_id mi of
             None \<Rightarrow> payload
           | Some b \<Rightarrow> if b \<noteq> [] then AList.update ''model'' (JStr b) payload else payload)"
    "(if params mi \<noteq> [] then apply_params w (params mi) p0 else Inr p0) = Inr pa"
    "apply_system w usr (params mi) pa = Inr payload'"
proof -
  from assms obtain pa where
    "(if params mi \<noteq> [] then apply_params w (params mi)
         (case base_model_id mi of
             None \<Rightarrow> payload
           | Some b \<Rightarrow> if b \<noteq> [] then AList.update ''model'' (JStr b) payload else payload)
      else Inr (case base_model_id mi of
             None \<Rightarrow> payload
           | Some b \<Rightarrow> if b \<noteq> [] then AList.update ''model'' (JStr b) payload else payload))
     = Inr pa"
    "apply_system w usr (params mi) pa = Inr payload'"
    by (simp add: override_pipeline_def Let_def ebind_eq_Inr del: if_split split del: if_split) blast
  then show thesis by (intro that [OF refl])
qed

lemma alias_frame:
  "k \<noteq> ''model'' \<Longrightarrow>
   map_of (case b of None \<Rightarrow> payload
           | Some b \<Rightarrow> if b \<noteq> [] then AList.update ''model'' (JStr b) payload else payload) k
   = map_of payload k"
  by (simp add: update_conv' split: option.splits)

text \<open>
  Claim C10. In the override pipeline a profile value of 0 for \<^verbatim>\<open>top_p\<close>,
  \<^verbatim>\<open>max_tokens\<close>, \<^verbatim>\<open>frequency_penalty\<close> or \<^verbatim>\<open>seed\<close>, or an empty \<^verbatim>\<open>stop\<close> list,
  leaves the request's field as it was (the tests are truth tests), whereas a
  \<^verbatim>\<open>temperature\<close> of 0 replaces the request's temperature by the float 0 (its test is
  \<^verbatim>\<open>is not None\<close>).
\<close>

theorem zero_overrides_only_temperature:
  assumes "override_pipeline w usr (Some mi) payload = Inr payload'"
  shows "(dict_get (params mi) ''temperature'' JNull \<in> {JInt 0, JFloat 0} \<longrightarrow>
            map_of payload' ''temperature'' = Some (JFloat 0))
       \<and> (\<forall>k \<in> {''top_p'', ''max_tokens'', ''frequency_penalty'', ''seed''}.
            dict_get (params mi) k JNull \<in> {JInt 0, JFloat 0} \<longrightarrow>
            map_of payload' k = map_of payload k)
       \<and> (dict_get (params mi) ''stop'' JNull = JList [] \<longrightarrow>
            map_of payload' ''stop'' = map_of payload ''stop'')"
proof -
  let ?ps = "params mi"
  from assms obtain p0 pa where
    p0: "p0 = (case base_model_id mi of
             None \<Rightarrow> payload
           | Some b \<Rightarrow> if b \<noteq> [] then AList.update ''model'' (JStr b) payload else payload)"
    and pa: "(if ?ps \<noteq> [] then apply_params w ?ps p0 else Inr p0) = Inr pa"
    and sys: "apply_system w usr ?ps pa = Inr payload'"
    by (rule override_pipeline_stages)
  have temp: "map_of payload' ''temperature'' = Some (JFloat 0)"
    if z: "dict_get ?ps ''temperature'' JNull \<in> {JInt 0, JFloat 0}"
  proof -
    from z have nn: "dict_get ?ps ''temperature'' JNull \<noteq> JNull" by auto
    then have "?ps \<noteq> []" by (auto simp: dict_get_def)
    with pa have ap: "apply_params w ?ps p0 = Inr pa" by simp
    from apply_params_temperature [OF ap nn] z
    have "map_of pa ''temperature'' = Some (JFloat 0)" by auto
    moreover have "map_of payload' ''temperature'' = map_of pa ''temperature''"
      using sys by (rule apply_system_frame) simp
    ultimately show ?thesis by simp
  qed
  have falsy: "map_of payload' k = map_of payload k"
    if k: "k \<in> {''top_p'', ''max_tokens'', ''frequency_penalty'', ''seed'', ''stop''}"
      and f: "\<not> truthy (dict_get ?ps k JNull)" for k
  proof -
    have "map_of p0 k = map_of payload k"
      unfolding p0 using k by (intro alias_frame) auto
    moreover have "map_of pa k = map_of p0 k"
    proof (cases "?ps = []")
      case True
      with pa show ?thesis by simp
    next
      case False
      with pa have "apply_params w ?ps p0 = Inr pa" by simp
      then show ?thesis using k f by (rule apply_params_falsy)
    qed
    moreover have "map_of payload' k = map_of pa k"
      using sys by (rule apply_system_frame) (use k in auto)
    ultimately show ?thesis by simp
  qed
  show ?thesis
  proof (intro conjI impI ballI)
    assume "dict_get ?ps ''temperature'' JNull \<in> {JInt 0, JFloat 0}"
    then show "map_of payload' ''temperature'' = Some (JFloat 0)" by (rule temp)
  next
    fix k
    assume "k \<in> {''top_p'', ''max_tokens'', ''frequency_penalty'', ''seed''}"
      and "dict_get ?ps k JNull \<in> {JInt 0, JFloat 0}"
    then show "map_of payload' k = map_of payload k"
      by (intro falsy) auto
  next
    assume "dict_get ?ps ''stop'' JNull = JList []"
    then show "map_of payload' ''stop'' = map_of payload ''stop''"
      by (intro falsy) auto
  qed
qed

text \<open>
  A profile that sets all of them to zero against a request that sets its own values: only
  the temperature is replaced.
\<close>

theorem zero_overrides_only_temperature_witness:
  "override_pipeline sample_world sample_user
     (Some \<lparr>base_model_id = None,
            params = [(''temperature'', JInt 0), (''top_p'', JInt 0), (''max_tokens'', JInt 0),
                      (''frequency_penalty'', JInt 0), (''seed'', JInt 0),
                      (''stop'', JList [])]\<rparr>)
     [(''model'', JStr ''gpt-4''), (''temperature'', JFloat 0.9), (''top_p'', JInt 1),
      (''seed'', JInt 42)]
   = Inr [(''model'', JStr ''gpt-4''), (''temperature'', JFloat 0), (''top_p'', JInt 1),
          (''seed'', JInt 42)]
   \<and> map_of [(''model'', JStr ''gpt-4''), (''temperature'', JFloat 0), (''top_p'', JInt 1),
          (''seed'', JInt 42)] ''temperature'' = Some (JFloat 0)
   \<and> map_of [(''model'', JStr ''gpt-4''), (''temperature'', JFloat 0), (''top_p'', JInt 1),
          (''seed'', JInt 42)] ''seed'' = Some (JInt 42)"
proof -
  have run: "override_pipeline sample_world sample_user
     (Some \<lparr>base_model_id = None,
            params = [(''temperature'', JInt 0), (''top_p'', JInt 0), (''max_tokens'', JInt 0),
                      (''frequency_penalty'', JInt 0), (''seed'', JInt 0),
                      (''stop'', JList [])]\<rparr>)
     [(''model'', JStr ''gpt-4''), (''temperature'', JFloat 0.9), (''top_p'', JInt 1),
      (''seed'', JInt 42)]
   = Inr [(''model'', JStr ''gpt-4''), (''temperature'', JFloat 0), (''top_p'', JInt 1),
          (''seed'', JInt 42)]"
    by code_simp
  show ?thesis
    using zero_overrides_only_temperature [OF run] run
    by (simp add: dict_get_def)
qed

section \<open>Routing and the system prompt\<close>

lemma route_frame:
  assumes "route s usr p = Inr (p2, idx)" and "k \<notin> {''user'', ''max_tokens''}"
  shows "map_of p2 k = map_of p k"
  using assms
  by (auto simp: route_def ebind_eq_Inr Let_def update_conv' split: option.splits if_splits)

lemma get_attr_Inr: "get_attr m k = Inr v \<longleftrightarrow> (\<exists>d. m = JObj d \<and> v = dict_get d k JNull)"
  by (cases m) auto

lemma prepend_system_obj:
  "prepend_system sys (JObj d # rest) =
     (if dict_get d ''role'' JNull = JStr ''system'' then
        (case map_of d ''content'' of
           None \<Rightarrow> Inl (KeyError (JStr ''content''))
         | Some (JStr old) \<Rightarrow>
             Inr (Some (JObj (AList.update ''content'' (JStr (sys @ old)) d) # rest))
         | Some _ \<Rightarrow> Inl TypeError)
      else ebind (prepend_system sys rest) (\<lambda>found. Inr (map_option (\<lambda>ms. JObj d # ms) found)))"
  by (simp split: option.splits json.splits)

lemma prepend_system_None:
  "prepend_system sys ms = Inr None \<Longrightarrow> \<forall>m \<in> set ms. \<not> has_role_system m"
proof (induction ms)
  case Nil
  then show ?case by simp
next
  case (Cons m ms)
  from Cons.prems obtain d where m: "m = JObj d"
    by (cases m) simp_all
  from Cons.prems have "dict_get d ''role'' JNull \<noteq> JStr ''system''"
    unfolding m prepend_system_obj by (auto split: option.splits json.splits)
  moreover from this Cons.prems have "prepend_system sys ms = Inr None"
    unfolding m prepend_system_obj by (auto simp: ebind_eq_Inr)
  ultimately show ?case
    using Cons.IH by (simp add: m has_role_system_def)
qed

lemma prepend_system_Some:
  "prepend_system sys ms = Inr (Some ms') \<Longrightarrow>
   \<exists>pre d old post. ms = pre @ JObj d # post \<and> (\<forall>m \<in> set pre. \<not> has_role_system m)
     \<and> has_role_system (JObj d) \<and> map_of d ''content'' = Some (JStr old)
     \<and> ms' = pre @ JObj (AList.update ''content'' (JStr (sys @ old)) d) # post"
proof (induction ms arbitrary: ms')
  case Nil
  then show ?case by simp
next
  case (Cons m ms)
  from Cons.prems obtain d where m: "m = JObj d"
    by (cases m) simp_all
  show ?case
  proof (cases "dict_get d ''role'' JNull = JStr ''system''")
    case True
    with Cons.prems obtain old where c: "map_of d ''content'' = Some (JStr old)"
      and ms': "ms' = JObj (AList.update ''content'' (JStr (sys @ old)) d) # ms"
      unfolding m prepend_system_obj by (auto split: option.splits json.splits)
    have "m # ms = [] @ JObj d # ms" by (simp add: m)
    moreover have "has_role_system (JObj d)"
      using True by (simp add: has_role_system_def)
    moreover have "ms' = [] @ JObj (AList.update ''content'' (JStr (sys @ old)) d) # ms"
      using ms' by simp
    moreover have "\<forall>m \<in> set []. \<not> has_role_system m" by simp
    ultimately show ?thesis using c by blast
  next
    case False
    with Cons.prems obtain rest where rest: "prepend_system sys ms = Inr (Some rest)"
      and ms': "ms' = m # rest"
      unfolding m prepend_system_obj by (auto simp: ebind_eq_Inr)
    from Cons.IH [OF rest] obtain pre d' old post where
      ih: "ms = pre @ JObj d' # post" "\<forall>m \<in> set pre. \<not> has_role_system m"
      "has_role_system (JObj d')" "map_of d' ''content'' = Some (JStr old)"
      "rest = pre @ JObj (AList.update ''content'' (JStr (sys @ old)) d') # post"
      by blast
    have nm: "\<not> has_role_system m"
      using False by (simp add: m has_role_system_def)
    have "m # ms = (m # pre) @ JObj d' # post"
      "\<forall>x \<in> set (m # pre). \<not> has_role_system x"
      "ms' = (m # pre) @ JObj (AList.update ''content'' (JStr (sys @ old)) d') # post"
      using ms' ih nm by simp_all
    with ih(3,4) show ?thesis by blast
  qed
qed

lemma apply_system_messages:
  assumes "apply_system w usr ps p = Inr p'"
    and "truthy (dict_get ps ''system'' JNull)"
    and "dict_get p ''messages'' JNull = JList ms" and "ms \<noteq> []"
  obtains sys location found where
    "prompt_template w (dict_get ps ''system'' JNull) (user_name usr) location = Inr sys"
    "prepend_system sys ms = Inr found"
    "dict_get p' ''messages'' JNull
       = JList (case found of
                  Some updated \<Rightarrow> updated
                | None \<Rightarrow> JObj [(''role'', JStr ''system''), (''content'', JStr sys)] # ms)"
proof -
  have eq: "apply_system w usr ps p =
     ebind (if truthy (user_info usr) then get_attr (user_info usr) ''location''
            else Inr JNull) (\<lambda>location.
     ebind (prompt_template w (dict_get ps ''system'' JNull) (user_name usr) location) (\<lambda>sys.
     ebind (prepend_system sys ms) (\<lambda>found.
       Inr (AList.update ''messages''
              (JList (case found of
                        Some updated \<Rightarrow> updated
                      | None \<Rightarrow> JObj [(''role'', JStr ''system''), (''content'', JStr sys)]
                                 # ms)) p))))"
    using assms(2-4)
    by (simp add: apply_system_def option.case_distrib [of Inr] option.case_distrib [of JList]
          option.case_distrib [of "\<lambda>v. AList.update ''messages'' v p"]
          cong: option.case_cong)
  from assms(1) obtain location sys found where
    "prompt_template w (dict_get ps ''system'' JNull) (user_name usr) location = Inr sys"
    "prepend_system sys ms = Inr found"
    "p' = AList.update ''messages''
              (JList (case found of
                        Some updated \<Rightarrow> updated
                      | None \<Rightarrow> JObj [(''role'', JStr ''system''), (''content'', JStr sys)]
                                 # ms)) p"
    unfolding eq ebind_eq_Inr by auto
  then show thesis
    by (intro that [of location sys found]) (simp_all add: dict_get_update)
qed

lemma dict_get_cong: "map_of d k = map_of d' k \<Longrightarrow> dict_get d k x = dict_get d' k x"
  by (simp add: dict_get_def)

lemma outbound_stages:
  assumes "outbound w s form_data usr model_id = Inr (url, key, payload')"
  obtains payload idx where
    "override_pipeline w usr (get_model_by_id w (JStr model_id)) form_data = Inr payload"
    "route s usr payload = Inr (payload', idx)"
    "list_subscript (OPENAI_API_BASE_URLS s) idx = Inr url"
    "list_subscript (OPENAI_API_KEYS s) idx = Inr key"
  using assms by (auto simp: outbound_def ebind_eq_Inr)

lemma override_pipeline_frame:
  assumes "override_pipeline w usr info payload = Inr payload'"
    and "k \<notin> {''model'', ''temperature'', ''top_p'', ''max_tokens'', ''frequency_penalty'',
               ''seed'', ''stop'', ''messages''}"
  shows "map_of payload' k = map_of payload k"
proof (cases info)
  case None
  with assms show ?thesis by (simp add: override_pipeline_def)
next
  case (Some mi)
  from assms(1) [unfolded Some] obtain p0 pa where
    p0: "p0 = (case base_model_id mi of
             None \<Rightarrow> payload
           | Some b \<Rightarrow> if b \<noteq> [] then AList.update ''model'' (JStr b) payload else payload)"
    and pa: "(if params mi \<noteq> [] then apply_params w (params mi) p0 else Inr p0) = Inr pa"
    and sys: "apply_system w usr (params mi) pa = Inr payload'"
    by (rule override_pipeline_stages)
  have "map_of p0 k = map_of payload k"
    unfolding p0 using assms(2) by (intro alias_frame) auto
  moreover have "map_of pa k = map_of p0 k"
  proof (cases "params mi = []")
    case True
    with pa show ?thesis by simp
  next
    case False
    with pa have "apply_params w (params mi) p0 = Inr pa" by simp
    then show ?thesis by (rule apply_params_frame) (use assms(2) in auto)
  qed
  moreover have "map_of payload' k = map_of pa k"
    using sys by (rule apply_system_frame) (use assms(2) in auto)
  ultimately show ?thesis by simp
qed

lemma override_pipeline_messages:
  assumes "override_pipeline w usr (Some mi) payload = Inr payload'"
    and "truthy (dict_get (params mi) ''system'' JNull)"
    and "dict_get payload ''messages'' JNull = JList ms" and "ms \<noteq> []"
  obtains sys location found where
    "prompt_template w (dict_get (params mi) ''system'' JNull) (user_name usr) location = Inr sys"
    "prepend_system sys ms = Inr found"
    "dict_get payload' ''messages'' JNull
       = JList (case found of
                  Some updated \<Rightarrow> updated
                | None \<Rightarrow> JObj [(''role'', JStr ''system''), (''content'', JStr sys)] # ms)"
proof -
  from assms(1) obtain p0 pa where
    p0: "p0 = (case base_model_id mi of
             None \<Rightarrow> payload
           | Some b \<Rightarrow> if b \<noteq> [] then AList.update ''model'' (JStr b) payload else payload)"
    and pa: "(if params mi \<noteq> [] then apply_params w (params mi) p0 else Inr p0) = Inr pa"
    and sys: "apply_system w usr (params mi) pa = Inr payload'"
    by (rule override_pipeline_stages)
  have "map_of p0 ''messages'' = map_of payload ''messages''"
    unfolding p0 by (intro alias_frame) simp
  moreover have "map_of pa ''messages'' = map_of p0 ''messages''"
  proof (cases "params mi = []")
    case True
    with pa show ?thesis by simp
  next
    case False
    with pa have "apply_params w (params mi) p0 = Inr pa" by simp
    then show ?thesis by (rule apply_params_frame) simp
  qed
  ultimately have "dict_get pa ''messages'' JNull = JList ms"
    using assms(3) by (simp add: dict_get_def)
  from apply_system_messages [OF sys assms(2) this assms(4)] show thesis
    using that by blast
qed

text \<open>
  Claim C7, amended. Take a chat-completion request that reaches the backend, whose
  profile defines a (non-empty) system-prompt template and whose message list is not empty.
  If no message has role \<^verbatim>\<open>system\<close>, the forwarded message list is the old one with
  exactly one new system message, holding the rendered template, in front of it. If some
  message has role \<^verbatim>\<open>system\<close>, the rendered template is put in front of the content of the
  first such message, and the list is otherwise the same: no message is added.
\<close>

theorem system_prompt_injection:
  assumes "outbound w s form_data usr model_id = Inr (url, key, payload)"
    and "get_model_by_id w (JStr model_id) = Some mi"
    and "truthy (dict_get (params mi) ''system'' JNull)"
    and "dict_get form_data ''messages'' JNull = JList ms"
    and "ms \<noteq> []"
  shows "\<exists>sys location.
      prompt_template w (dict_get (params mi) ''system'' JNull) (user_name usr) location = Inr sys
    \<and> ((\<forall>m \<in> set ms. \<not> has_role_system m) \<longrightarrow>
          dict_get payload ''messages'' JNull
            = JList (JObj [(''role'', JStr ''system''), (''content'', JStr sys)] # ms))
    \<and> ((\<exists>m \<in> set ms. has_role_system m) \<longrightarrow>
          (\<exists>pre d old post.
              ms = pre @ JObj d # post
            \<and> (\<forall>m \<in> set pre. \<not> has_role_system m)
            \<and> has_role_system (JObj d)
            \<and> map_of d ''content'' = Some (JStr old)
            \<and> dict_get payload ''messages'' JNull
                = JList (pre @ JObj (AList.update ''content'' (JStr (sys @ old)) d) # post)))"
proof -
  from assms(1) obtain p1 idx where
    pipe: "override_pipeline w usr (get_model_by_id w (JStr model_id)) form_data = Inr p1"
    and route: "route s usr p1 = Inr (payload, idx)"
    by (rule outbound_stages)
  from pipe have pipe': "override_pipeline w usr (Some mi) form_data = Inr p1"
    by (simp add: assms(2))
  from override_pipeline_messages [OF pipe' assms(3,4,5)] obtain sys location found where
    tmpl: "prompt_template w (dict_get (params mi) ''system'' JNull) (user_name usr) location
             = Inr sys"
    and found: "prepend_system sys ms = Inr found"
    and msgs: "dict_get p1 ''messages'' JNull
       = JList (case found of
                  Some updated \<Rightarrow> updated
                | None \<Rightarrow> JObj [(''role'', JStr ''system''), (''content'', JStr sys)] # ms)"
    by blast
  have "map_of payload ''messages'' = map_of p1 ''messages''"
    using route by (rule route_frame) simp
  then have out: "dict_get payload ''messages'' JNull = dict_get p1 ''messages'' JNull"
    by (rule dict_get_cong)
  have none: "dict_get payload ''messages'' JNull
            = JList (JObj [(''role'', JStr ''system''), (''content'', JStr sys)] # ms)"
    if no: "\<forall>m \<in> set ms. \<not> has_role_system m"
  proof (cases found)
    case None
    with msgs out show ?thesis by simp
  next
    case (Some updated)
    with found prepend_system_Some [of sys ms updated] no show ?thesis by auto
  qed
  have some: "\<exists>pre d old post.
              ms = pre @ JObj d # post
            \<and> (\<forall>m \<in> set pre. \<not> has_role_system m)
            \<and> has_role_system (JObj d)
            \<and> map_of d ''content'' = Some (JStr old)
            \<and> dict_get payload ''messages'' JNull
                = JList (pre @ JObj (AList.update ''content'' (JStr (sys @ old)) d) # post)"
    if yes: "\<exists>m \<in> set ms. has_role_system m"
  proof (cases found)
    case None
    with found prepend_system_None [of sys ms] yes show ?thesis by auto
  next
    case (Some updated)
    with found have "prepend_system sys ms = Inr (Some updated)" by simp
    from prepend_system_Some [OF this] obtain pre d old post where
      "ms = pre @ JObj d # post" "\<forall>m \<in> set pre. \<not> has_role_system m"
      "has_role_system (JObj d)" "map_of d ''content'' = Some (JStr old)"
      "updated = pre @ JObj (AList.update ''content'' (JStr (sys @ old)) d) # post"
      by blast
    moreover have "dict_get payload ''messages'' JNull = JList updated"
      using msgs out Some by simp
    ultimately show ?thesis by blast
  qed
  from tmpl none some show ?thesis by blast
qed

text \<open>
  Both cases at concrete requests: a request with one user message gains the system
  message in front, and a request that starts with a system message keeps its two messages.
\<close>

theorem system_prompt_injection_witness:
  "outbound (profile_world \<lparr>base_model_id = None, params = [(''system'', JStr ''Be brief. '')]\<rparr>)
     refreshed_state
     [(''model'', JStr ''m-a''),
      (''messages'', JList [JObj [(''role'', JStr ''user''), (''content'', JStr ''Hi'')]])]
     sample_user ''m-a''
   = Inr (''http://a'', ''key-a'',
       [(''model'', JStr ''m-a''),
        (''messages'', JList [JObj [(''role'', JStr ''system''), (''content'', JStr ''Be brief. '')],
                              JObj [(''role'', JStr ''user''), (''content'', JStr ''Hi'')]])])
   \<and> outbound (profile_world \<lparr>base_model_id = None, params = [(''system'', JStr ''Be brief. '')]\<rparr>)
     refreshed_state
     [(''model'', JStr ''m-a''),
      (''messages'', JList [JObj [(''role'', JStr ''system''), (''content'', JStr ''Old.'')],
                            JObj [(''role'', JStr ''user''), (''content'', JStr ''Hi'')]])]
     sample_user ''m-a''
   = Inr (''http://a'', ''key-a'',
       [(''model'', JStr ''m-a''),
        (''messages'', JList [JObj [(''role'', JStr ''system''),
                                    (''content'', JStr ''Be brief. Old.'')],
                              JObj [(''role'', JStr ''user''), (''content'', JStr ''Hi'')]])])"
proof -
  let ?mi = "\<lparr>base_model_id = None, params = [(''system'', JStr ''Be brief. '')]\<rparr>"
  let ?user = "JObj [(''role'', JStr ''user''), (''content'', JStr ''Hi'')]"
  let ?old = "JObj [(''role'', JStr ''system''), (''content'', JStr ''Old.'')]"
  have run1: "outbound (profile_world ?mi) refreshed_state
     [(''model'', JStr ''m-a''), (''messages'', JList [?user])] sample_user ''m-a''
   = Inr (''http://a'', ''key-a'',
       [(''model'', JStr ''m-a''),
        (''messages'', JList [JObj [(''role'', JStr ''system''), (''content'', JStr ''Be brief. '')],
                              ?user])])"
    by code_simp
  have run2: "outbound (profile_world ?mi) refreshed_state
     [(''model'', JStr ''m-a''), (''messages'', JList [?old, ?user])] sample_user ''m-a''
   = Inr (''http://a'', ''key-a'',
       [(''model'', JStr ''m-a''),
        (''messages'', JList [JObj [(''role'', JStr ''system''),
                                    (''content'', JStr ''Be brief. Old.'')], ?user])])"
    by code_simp
  have store: "get_model_by_id (profile_world ?mi) (JStr ''m-a'') = Some ?mi"
    by (simp add: profile_world_def)
  have tmpl: "truthy (dict_get (params ?mi) ''system'' JNull)"
    by (simp add: dict_get_def)
  have m1: "dict_get [(''model'', JStr ''m-a''), (''messages'', JList [?user])] ''messages'' JNull
              = JList [?user]"
    and m2: "dict_get [(''model'', JStr ''m-a''), (''messages'', JList [?old, ?user])]
               ''messages'' JNull = JList [?old, ?user]"
    by (simp_all add: dict_get_def)
  have n1: "[?user] \<noteq> []" and n2: "[?old, ?user] \<noteq> []" by simp_all
  show ?thesis
    using system_prompt_injection [OF run1 store tmpl m1 n1]
      system_prompt_injection [OF run2 store tmpl m2 n2] run1 run2
    by simp
qed

text \<open>
  The claim as stated fails for a request without messages: the test
  \<^verbatim>\<open>if payload.get("messages")\<close> skips the whole block, and the forwarded payload has no
  system message although the profile defines a template.
\<close>

theorem system_prompt_empty_messages_counterexample:
  "outbound (profile_world \<lparr>base_model_id = None, params = [(''system'', JStr ''Be brief. '')]\<rparr>)
     refreshed_state [(''model'', JStr ''m-a''), (''messages'', JList [])] sample_user ''m-a''
   = Inr (''http://a'', ''key-a'', [(''model'', JStr ''m-a''), (''messages'', JList [])])"
  by code_simp

section \<open>The catalog lookup of the chat handler\<close>

lemma override_pipeline_model:
  assumes "override_pipeline w usr info form_data = Inr payload"
    and "dict_get form_data ''model'' JNull = JStr model_id"
  shows "dict_get payload ''model'' JNull = JStr (alias_of info model_id)"
proof (cases info)
  case None
  with assms show ?thesis by (simp add: override_pipeline_def alias_of_def)
next
  case (Some mi)
  from assms(1) [unfolded Some] obtain p0 pa where
    p0: "p0 = (case base_model_id mi of
             None \<Rightarrow> form_data
           | Some b \<Rightarrow> if b \<noteq> [] then AList.update ''model'' (JStr b) form_data
                       else form_data)"
    and pa: "(if params mi \<noteq> [] then apply_params w (params mi) p0 else Inr p0) = Inr pa"
    and sys: "apply_system w usr (params mi) pa = Inr payload"
    by (rule override_pipeline_stages)
  have "dict_get p0 ''model'' JNull = JStr (alias_of info model_id)"
    unfolding p0 Some using assms(2)
    by (simp add: alias_of_def dict_get_update split: option.splits)
  moreover have "map_of pa ''model'' = map_of p0 ''model''"
  proof (cases "params mi = []")
    case True
    with pa show ?thesis by simp
  next
    case False
    with pa have "apply_params w (params mi) p0 = Inr pa" by simp
    then show ?thesis by (rule apply_params_frame) simp
  qed
  moreover have "map_of payload ''model'' = map_of pa ''model''"
    using sys by (rule apply_system_frame) simp
  ultimately show ?thesis by (simp add: dict_get_def)
qed

text \<open>
  Claim C5, amended. For a chat-completion request whose model id is a string without a
  reserved prefix and whose override pipeline completes, a catalog that has no entry for the
  looked-up id (the profile's alias, else the requested id) makes the handler end with the
  \<open>KeyError\<close> of the dictionary lookup, carrying that id, before anything is sent to a
  backend. The handler does not catch it: the result is not an \<open>HTTPException\<close> of status 401
  or 404 and has no message of the module's own.
\<close>

theorem catalog_miss_raises_KeyError:
  assumes "dict_get form_data ''model'' JNull = JStr model_id"
    and "reserved_prefix model_id = None"
    and "override_pipeline w usr (get_model_by_id w (JStr model_id)) form_data = Inr payload"
    and "map_of (MODELS s) (JStr (alias_of (get_model_by_id w (JStr model_id)) model_id)) = None"
  shows "generate_chat_completion w s form_data url_idx usr
           = (Inl (KeyError (JStr (alias_of (get_model_by_id w (JStr model_id)) model_id))), [])
       \<and> \<not> spec_ModelNotFound (fst (generate_chat_completion w s form_data url_idx usr))"
proof -
  let ?m = "alias_of (get_model_by_id w (JStr model_id)) model_id"
  have m: "dict_get payload ''model'' JNull = JStr ?m"
    using assms(3,1) by (rule override_pipeline_model)
  have "route s usr payload = Inl (KeyError (JStr ?m))"
    using assms(4) by (simp add: route_def m)
  then have "outbound w s form_data usr model_id = Inl (KeyError (JStr ?m))"
    by (simp add: outbound_def assms(3))
  then have "generate_chat_completion w s form_data url_idx usr = (Inl (KeyError (JStr ?m)), [])"
    by (simp add: generate_chat_completion_def assms(1,2))
  then show ?thesis by (simp add: spec_ModelNotFound_def)
qed

text \<open>A profile whose alias names a model that no backend and no static entry provides.\<close>

theorem catalog_miss_raises_KeyError_witness:
  "generate_chat_completion
     (profile_world \<lparr>base_model_id = Some ''missing-base'', params = []\<rparr>) refreshed_state
     [(''model'', JStr ''m-a'')] None sample_user
   = (Inl (KeyError (JStr ''missing-base'')), [])"
proof -
  let ?w = "profile_world \<lparr>base_model_id = Some ''missing-base'', params = []\<rparr>"
  have model: "dict_get [(''model'', JStr ''m-a'')] ''model'' JNull = JStr ''m-a''"
    by (simp add: dict_get_def)
  have free: "reserved_prefix ''m-a'' = None"
    by code_simp
  have pipe: "override_pipeline ?w sample_user (get_model_by_id ?w (JStr ''m-a''))
                [(''model'', JStr ''m-a'')] = Inr [(''model'', JStr ''missing-base'')]"
    by code_simp
  have miss: "map_of (MODELS refreshed_state)
                (JStr (alias_of (get_model_by_id ?w (JStr ''m-a'')) ''m-a'')) = None"
    by code_simp
  have looked: "alias_of (get_model_by_id ?w (JStr ''m-a'')) ''m-a'' = ''missing-base''"
    by (simp add: alias_of_def profile_world_def)
  show ?thesis
    using catalog_miss_raises_KeyError [OF model free pipe miss, of None]
    by (simp add: looked)
qed

text \<open>
  The claim as stated fails at a plain unknown model id: what the caller gets is the
  \<open>KeyError\<close>, not an error of the 401/404 class.
\<close>

theorem unknown_model_counterexample:
  "generate_chat_completion sample_world refreshed_state [(''model'', JStr ''unknown'')] None
     sample_user = (Inl (KeyError (JStr ''unknown'')), [])
   \<and> \<not> spec_ModelNotFound
        (fst (generate_chat_completion sample_world refreshed_state
               [(''model'', JStr ''unknown'')] None sample_user))"
  by code_simp

section \<open>The call to the backend and the release of its connection\<close>

text \<open>
  A request whose model id has no reserved prefix and whose payload and route are settled
  goes to the backend: the handler is then the \<^verbatim>\<open>try\<close> block of lines 687-728.
\<close>

lemma generate_chat_completion_forward:
  assumes "dict_get form_data ''model'' JNull = JStr model_id"
    and "reserved_prefix model_id = None"
    and "outbound w s form_data usr model_id = Inr (url, key, payload)"
  shows "generate_chat_completion w s form_data url_idx usr = forward w url key (JObj payload)"
  using assms by (simp add: generate_chat_completion_def)

text \<open>The chunks that reach the caller are the chunks that were copied, in the same order.\<close>

lemma sent_chunks_append: "sent_chunks (xs @ ys) = sent_chunks xs @ sent_chunks ys"
  by (induction xs rule: sent_chunks.induct) simp_all

lemma sent_chunks_copy: "sent_chunks (copy_chunks cs) = cs"
  by (induction cs) simp_all

lemma copy_chunks_events:
  "set (copy_chunks cs) = RecvChunk ` set cs \<union> SendChunk ` set cs"
  by (induction cs) auto

text \<open>
  Claim C1, amended. Take a chat-completion call that reaches a backend and gets a response
  that passes the status check of line 696 (a status below 400).

  If the \<^verbatim>\<open>Content-Type\<close> of the response contains \<^verbatim>\<open>text/event-stream\<close>, the handler
  returns a streaming response over the body of the backend, which it has not read, with
  the backend's status code and with the dictionary of line 704 as headers, in which a name
  that the backend repeats keeps its first value only; the handler itself closes nothing
  and hands the response and the session it opened to the cleanup task. Served by the
  framework, the request then runs as follows, whatever the number of chunks the caller
  accepts: status and headers are sent, every chunk is sent to the caller as soon as it is
  received and before the next one is received, in arrival order, nothing reads the whole
  body, and after the last chunk the response and the session opened by this call are
  closed, once each. A caller that accepts everything gets the whole body.

  Otherwise the body is read in full and decoded as one JSON value, which is the result (an
  \<open>HTTPException\<close> when the body is not JSON), and the response and the session are closed
  once each before the handler returns; serving the result does nothing more to the
  connection.
\<close>

theorem streaming_relay_or_buffered_release:
  assumes "dict_get form_data ''model'' JNull = JStr model_id"
    and "reserved_prefix model_id = None"
    and "outbound w s form_data usr model_id = Inr (url, key, payload)"
    and "http_post w (url @ ''/chat/completions'') key (JObj payload) = Replied r"
    and "status r < 400"
  shows "(str_in ''text/event-stream'' (header_get (headers r) ''Content-Type'' '''') \<longrightarrow>
            generate_chat_completion w s form_data url_idx usr
              = (Inr (StreamingResponse (content r) (status r) (dict_of_headers (headers r))
                        (Some r) (Some ClientSession)),
                 [OpenSession, SendRequest (url @ ''/chat/completions'')])
          \<and> (\<forall>accepted.
                serve accepted (generate_chat_completion w s form_data url_idx usr)
                  = [OpenSession, SendRequest (url @ ''/chat/completions''),
                     SendStart (status r) (dict_of_headers (headers r))]
                    @ copy_chunks (take accepted (content r))
                    @ [CloseResponse r, CloseSession ClientSession]
              \<and> sent_chunks (serve accepted
                    (generate_chat_completion w s form_data url_idx usr))
                  = take accepted (content r)
              \<and> ReadBody \<notin> set (serve accepted
                    (generate_chat_completion w s form_data url_idx usr)))
          \<and> sent_chunks (serve (length (content r))
                (generate_chat_completion w s form_data url_idx usr)) = content r)
       \<and> (\<not> str_in ''text/event-stream'' (header_get (headers r) ''Content-Type'' '''') \<longrightarrow>
            generate_chat_completion w s form_data url_idx usr
              = (case json_body r of
                   Inr v \<Rightarrow>
                     (Inr (JSONResponse v),
                      [OpenSession, SendRequest (url @ ''/chat/completions''), ReadBody,
                       CloseResponse r, CloseSession ClientSession])
                 | Inl e \<Rightarrow>
                     (Inl (chat_error w e (Some r) False),
                      [OpenSession, SendRequest (url @ ''/chat/completions''), ReadBody,
                       ReadBody, CloseResponse r, CloseSession ClientSession]))
          \<and> (\<forall>accepted.
                serve accepted (generate_chat_completion w s form_data url_idx usr)
                  = snd (generate_chat_completion w s form_data url_idx usr)))"
proof -
  let ?g = "generate_chat_completion w s form_data url_idx usr"
  let ?sse = "str_in ''text/event-stream'' (header_get (headers r) ''Content-Type'' '''')"
  let ?pre = "[OpenSession, SendRequest (url @ ''/chat/completions'')]"
  have gen: "?g = forward w url key (JObj payload)"
    using assms(1,2,3) by (rule generate_chat_completion_forward)
  have ok: "\<not> 400 \<le> status r" using assms(5) by simp
  have stream: "?g = (Inr (StreamingResponse (content r) (status r) (dict_of_headers (headers r))
                        (Some r) (Some ClientSession)), ?pre)" if ?sse
    unfolding gen using that ok by (simp add: forward_def try_forward_def assms(4) Let_def)
  have served: "serve accepted ?g
      = [OpenSession, SendRequest (url @ ''/chat/completions''),
         SendStart (status r) (dict_of_headers (headers r))]
        @ copy_chunks (take accepted (content r))
        @ [CloseResponse r, CloseSession ClientSession]" if ?sse for accepted
    unfolding stream [OF that] by (simp add: serve_def relay_def cleanup_response_def)
  have sent: "sent_chunks (serve accepted ?g) = take accepted (content r)" if ?sse for accepted
    unfolding served [OF that] by (simp add: sent_chunks_append sent_chunks_copy)
  have unread: "ReadBody \<notin> set (serve accepted ?g)" if ?sse for accepted
    unfolding served [OF that] by (auto simp: copy_chunks_events)
  have buffered: "?g = (case json_body r of
                   Inr v \<Rightarrow>
                     (Inr (JSONResponse v),
                      [OpenSession, SendRequest (url @ ''/chat/completions''), ReadBody,
                       CloseResponse r, CloseSession ClientSession])
                 | Inl e \<Rightarrow>
                     (Inl (chat_error w e (Some r) False),
                      [OpenSession, SendRequest (url @ ''/chat/completions''), ReadBody,
                       ReadBody, CloseResponse r, CloseSession ClientSession]))" if "\<not> ?sse"
    unfolding gen using that ok
    by (simp add: forward_def try_forward_def assms(4) Let_def split: sum.splits)
  have nothing_more: "serve accepted ?g = snd ?g" if "\<not> ?sse" for accepted
    unfolding buffered [OF that] by (simp add: serve_def relay_def split: sum.splits)
  have whole: "sent_chunks (serve (length (content r)) ?g) = content r" if ?sse
    using sent [OF that, of "length (content r)"] by simp
  from stream served sent unread whole buffered nothing_more show ?thesis
    by blast
qed

text \<open>
  The same at concrete inputs: a backend that answers with an event stream of two chunks,
  for a caller that takes both chunks and for one that leaves after the first, and a
  backend that answers with a JSON body.
\<close>

theorem streaming_relay_or_buffered_release_witness:
  "serve 2 (generate_chat_completion (stream_world 200) refreshed_state
      [(''model'', JStr ''m-a'')] None sample_user)
   = [OpenSession, SendRequest ''http://a/chat/completions'',
      SendStart 200 [(''Content-Type'', ''text/event-stream'')],
      RecvChunk ''data: a'', SendChunk ''data: a'',
      RecvChunk ''data: b'', SendChunk ''data: b'',
      CloseResponse \<lparr>status = 200, headers = [(''Content-Type'', ''text/event-stream'')],
                     content = [''data: a'', ''data: b''],
                     json_body = Inl (ClientError ''body is not JSON'')\<rparr>,
      CloseSession ClientSession]
   \<and> sent_chunks (serve 1 (generate_chat_completion (stream_world 200) refreshed_state
      [(''model'', JStr ''m-a'')] None sample_user)) = [''data: a'']
   \<and> generate_chat_completion sample_world refreshed_state [(''model'', JStr ''m-a'')] None
     sample_user
   = (Inr (JSONResponse (JObj [(''model'', JStr ''m-a'')])),
      [OpenSession, SendRequest ''http://a/chat/completions'', ReadBody,
       CloseResponse \<lparr>status = 200, headers = [(''Content-Type'', ''application/json'')],
                      content = [], json_body = Inr (JObj [(''model'', JStr ''m-a'')])\<rparr>,
       CloseSession ClientSession])"
proof -
  let ?form = "[(''model'', JStr ''m-a'')]"
  let ?r = "\<lparr>status = 200, headers = [(''Content-Type'', ''text/event-stream'')],
                     content = [''data: a'', ''data: b''],
                     json_body = Inl (ClientError ''body is not JSON'')\<rparr>"
  let ?echo = "\<lparr>status = 200, headers = [(''Content-Type'', ''application/json'')],
                 content = [], json_body = Inr (JObj ?form)\<rparr>"
  have model: "dict_get ?form ''model'' JNull = JStr ''m-a''"
    by (simp add: dict_get_def)
  have free: "reserved_prefix ''m-a'' = None"
    by code_simp
  have out: "outbound (stream_world 200) refreshed_state ?form sample_user ''m-a''
               = Inr (''http://a'', ''key-a'', ?form)"
    by code_simp
  have out': "outbound sample_world refreshed_state ?form sample_user ''m-a''
               = Inr (''http://a'', ''key-a'', ?form)"
    by code_simp
  have post: "http_post (stream_world 200) (''http://a'' @ ''/chat/completions'') ''key-a''
                (JObj ?form) = Replied ?r"
    by (simp add: stream_world_def sample_world_def)
  have post': "http_post sample_world (''http://a'' @ ''/chat/completions'') ''key-a''
                (JObj ?form) = Replied ?echo"
    by (simp add: sample_world_def)
  have ok: "status ?r < 400" and ok': "status ?echo < 400"
    by simp_all
  have sse: "str_in ''text/event-stream'' (header_get (headers ?r) ''Content-Type'' '''')"
    by code_simp
  have json: "\<not> str_in ''text/event-stream'' (header_get (headers ?echo) ''Content-Type'' '''')"
    by code_simp
  have hd: "dict_of_headers [(''Content-Type'', ''text/event-stream'')]
              = [(''Content-Type'', ''text/event-stream'')]"
    by code_simp
  note streamed = streaming_relay_or_buffered_release [OF model free out post ok, of None,
      THEN conjunct1, THEN mp, OF sse, THEN conjunct2, THEN conjunct1]
  note plain = streaming_relay_or_buffered_release [OF model free out' post' ok', of None,
      THEN conjunct2, THEN mp, OF json, THEN conjunct1]
  have relayed: "serve 2 (generate_chat_completion (stream_world 200) refreshed_state ?form None
        sample_user)
      = [OpenSession, SendRequest ''http://a/chat/completions'',
         SendStart 200 [(''Content-Type'', ''text/event-stream'')],
         RecvChunk ''data: a'', SendChunk ''data: a'',
         RecvChunk ''data: b'', SendChunk ''data: b'',
         CloseResponse ?r, CloseSession ClientSession]"
    using streamed [THEN spec [where x = 2], THEN conjunct1] by (simp add: hd)
  have sent: "sent_chunks (serve 1 (generate_chat_completion (stream_world 200) refreshed_state
        ?form None sample_user)) = [''data: a'']"
    using streamed [THEN spec [where x = 1], THEN conjunct2, THEN conjunct1] by simp
  have buffered: "generate_chat_completion sample_world refreshed_state ?form None sample_user
      = (Inr (JSONResponse (JObj ?form)),
         [OpenSession, SendRequest ''http://a/chat/completions'', ReadBody,
          CloseResponse ?echo, CloseSession ClientSession])"
    using plain by simp
  from relayed sent buffered show ?thesis
    by (intro conjI)
qed

text \<open>
  The claim as stated has the relay preserve the headers of the backend, and fails there:
  of a backend that sends \<^verbatim>\<open>Set-Cookie\<close> twice, with the values \<^verbatim>\<open>a=1\<close> and \<^verbatim>\<open>b=2\<close>, only
  the first is passed on, since \<^verbatim>\<open>dict(r.headers)\<close> of line 704 holds one value per name.
\<close>

theorem repeated_header_counterexample:
  "generate_chat_completion cookie_world refreshed_state [(''model'', JStr ''m-a'')] None
     sample_user
   = (Inr (StreamingResponse [''data: a''] 200
             [(''Content-Type'', ''text/event-stream''), (''Set-Cookie'', ''a=1'')]
             (Some \<lparr>status = 200,
                     headers = [(''Content-Type'', ''text/event-stream''),
                                (''Set-Cookie'', ''a=1''), (''Set-Cookie'', ''b=2'')],
                     content = [''data: a''],
                     json_body = Inl (ClientError ''body is not JSON'')\<rparr>)
             (Some ClientSession)),
      [OpenSession, SendRequest ''http://a/chat/completions''])
   \<and> serve 1 (generate_chat_completion cookie_world refreshed_state
        [(''model'', JStr ''m-a'')] None sample_user)
   = [OpenSession, SendRequest ''http://a/chat/completions'',
      SendStart 200 [(''Content-Type'', ''text/event-stream''), (''Set-Cookie'', ''a=1'')],
      RecvChunk ''data: a'', SendChunk ''data: a'',
      CloseResponse \<lparr>status = 200,
                     headers = [(''Content-Type'', ''text/event-stream''),
                                (''Set-Cookie'', ''a=1''), (''Set-Cookie'', ''b=2'')],
                     content = [''data: a''],
                     json_body = Inl (ClientError ''body is not JSON'')\<rparr>,
      CloseSession ClientSession]"
  by code_simp

text \<open>
  Headers are passed on unchanged when no name occurs twice (names compared without case).
\<close>

lemma update_fresh:
  "k \<notin> fst ` set al \<Longrightarrow> AList.update k v al = al @ [(k, v)]"
  by (induction al) auto

lemma fold_update_fresh:
  "distinct (map fst xs) \<Longrightarrow> fst ` set xs \<inter> fst ` set acc = {} \<Longrightarrow>
   fold (\<lambda>kv d. AList.update (fst kv) (g (fst kv)) d) xs acc
     = acc @ map (\<lambda>kv. (fst kv, g (fst kv))) xs"
proof (induction xs arbitrary: acc)
  case Nil
  then show ?case by simp
next
  case (Cons x xs)
  have fresh: "fst x \<notin> fst ` set acc" using Cons.prems(2) by auto
  have d: "distinct (map fst xs)" and nx: "fst x \<notin> fst ` set xs"
    using Cons.prems(1) by auto
  have disj: "fst ` set xs \<inter> fst ` set (acc @ [(fst x, g (fst x))]) = {}"
    using Cons.prems(2) nx by auto
  show ?case
    using Cons.IH [OF d disj] by (simp add: update_fresh [OF fresh])
qed

lemma header_get_distinct:
  assumes "distinct (map (\<lambda>kv. lower (fst kv)) hs)" and "kv \<in> set hs"
  shows "header_get hs (fst kv) dflt = snd kv"
proof -
  have "find (\<lambda>x. lower (fst x) = lower (fst kv)) hs = Some kv"
    using assms
  proof (induction hs)
    case Nil
    then show ?case by simp
  next
    case (Cons h hs)
    then show ?case by (auto simp: image_iff)
  qed
  then show ?thesis by (simp add: header_get_def)
qed

lemma dict_of_headers_distinct:
  assumes "distinct (map (\<lambda>kv. lower (fst kv)) hs)"
  shows "dict_of_headers hs = hs"
proof -
  have d: "distinct (map fst hs)"
    using assms by (metis (no_types, lifting) distinct_map inj_on_def comp_apply
        distinct_map map_map)
  have "dict_of_headers hs = map (\<lambda>kv. (fst kv, header_get hs (fst kv) '''')) hs"
    unfolding dict_of_headers_def using fold_update_fresh [OF d, of "[]" "\<lambda>k. header_get hs k ''''"]
    by simp
  also have "\<dots> = map (\<lambda>kv. kv) hs"
    by (rule map_cong [OF refl]) (simp add: header_get_distinct [OF assms])
  finally show ?thesis by simp
qed

text \<open>
  A status of 400 or above is raised by \<^verbatim>\<open>raise_for_status\<close> before the \<^verbatim>\<open>Content-Type\<close>
  is looked at (section 4.5 of the specification says so): the result is an
  \<open>HTTPException\<close> with the backend's status, whose detail is the text of the exception
  because the released response can no longer be read, and the response and the session
  are closed once each.
\<close>

lemma error_status_raises:
  assumes "dict_get form_data ''model'' JNull = JStr model_id"
    and "reserved_prefix model_id = None"
    and "outbound w s form_data usr model_id = Inr (url, key, payload)"
    and "http_post w (url @ ''/chat/completions'') key (JObj payload) = Replied r"
    and "400 \<le> status r"
  shows "generate_chat_completion w s form_data url_idx usr
           = (Inl (HTTPException (status r)
                     (''External: '' @ exc_str w (ClientError ''raise_for_status''))),
              [OpenSession, SendRequest (url @ ''/chat/completions''), CloseResponse r,
               CloseSession ClientSession])"
proof -
  have "generate_chat_completion w s form_data url_idx usr = forward w url key (JObj payload)"
    using assms(1,2,3) by (rule generate_chat_completion_forward)
  then show ?thesis
    using assms(5)
    by (simp add: forward_def try_forward_def assms(4) Let_def chat_error_def read_json_def)
qed

lemma error_status_event_stream:
  "generate_chat_completion (stream_world 500) refreshed_state [(''model'', JStr ''m-a'')] None
     sample_user
   = (Inl (HTTPException 500 ''External: raise_for_status''),
      [OpenSession, SendRequest ''http://a/chat/completions'',
       CloseResponse \<lparr>status = 500, headers = [(''Content-Type'', ''text/event-stream'')],
                      content = [''data: a'', ''data: b''],
                      json_body = Inl (ClientError ''body is not JSON'')\<rparr>,
       CloseSession ClientSession])"
  by code_simp

text \<open>
  On every path through the handler: a session that could not be opened leaves nothing to
  close; a request that failed closes the session; a response is closed together with the
  session, once each, unless it became a streaming response, for which the handler closes
  nothing.
\<close>

lemma forward_releases_what_it_opened:
  "snd (forward w url key payload) =
     (case http_post w (url @ ''/chat/completions'') key payload of
        SessionFailed e \<Rightarrow> []
      | RequestFailed e \<Rightarrow>
          [OpenSession, SendRequest (url @ ''/chat/completions''), CloseSession ClientSession]
      | Replied r \<Rightarrow>
          if 400 \<le> status r then
            [OpenSession, SendRequest (url @ ''/chat/completions''), CloseResponse r,
             CloseSession ClientSession]
          else if str_in ''text/event-stream'' (header_get (headers r) ''Content-Type'' '''')
          then [OpenSession, SendRequest (url @ ''/chat/completions'')]
          else (case json_body r of
                  Inr v \<Rightarrow>
                    [OpenSession, SendRequest (url @ ''/chat/completions''), ReadBody,
                     CloseResponse r, CloseSession ClientSession]
                | Inl e \<Rightarrow>
                    [OpenSession, SendRequest (url @ ''/chat/completions''), ReadBody,
                     ReadBody, CloseResponse r, CloseSession ClientSession]))"
  by (simp add: forward_def try_forward_def Let_def
        split: sum.splits post_outcome.splits)

section \<open>Zero values in an override profile\<close>

text \<open>
  Claim C6 at a failing input. The profile defines \<^verbatim>\<open>seed = 0\<close>,
  \<^verbatim>\<open>frequency_penalty = 0\<close> and \<^verbatim>\<open>temperature = 0\<close>, all of them non-null; the request sets
  \<^verbatim>\<open>seed = 42\<close>, \<^verbatim>\<open>frequency_penalty = 1\<close> and \<^verbatim>\<open>temperature = 0.9\<close>. The payload that goes
  out keeps the request's seed and frequency penalty; only the temperature, whose test is
  \<^verbatim>\<open>is not None\<close>, is overwritten by the profile.
\<close>

theorem zero_seed_not_forwarded:
  "outbound (profile_world \<lparr>base_model_id = None,
                             params = [(''seed'', JInt 0), (''frequency_penalty'', JInt 0),
                                       (''temperature'', JInt 0)]\<rparr>)
     refreshed_state
     [(''model'', JStr ''m-a''), (''seed'', JInt 42), (''frequency_penalty'', JInt 1),
      (''temperature'', JFloat 0.9)]
     sample_user ''m-a''
   = Inr (''http://a'', ''key-a'',
       [(''model'', JStr ''m-a''), (''seed'', JInt 42), (''frequency_penalty'', JInt 1),
        (''temperature'', JFloat 0)])"
  by code_simp

section \<open>The URL update\<close>

text \<open>
  \<open>update_openai_urls\<close> refreshes first and stores the new list afterwards, so the catalog it
  leaves is the one built from the list that was configured before the update.
\<close>

lemma update_openai_urls_catalog:
  "MODELS (snd (update_openai_urls w urls s)) = MODELS (snd (get_all_models w False s))"
  by (simp add: update_openai_urls_def split: prod.splits sum.splits)

text \<open>
  Claim C4 at a failing input. The configured backend \<^verbatim>\<open>http://a\<close> lists \<^verbatim>\<open>m-a\<close>, the
  backend \<^verbatim>\<open>http://b\<close> lists \<^verbatim>\<open>m-b\<close>, and the URL list is replaced by \<^verbatim>\<open>[http://b]\<close>.
  After the update the stored list is the new one, but the catalog holds \<^verbatim>\<open>m-a\<close> and not
  \<^verbatim>\<open>m-b\<close>; a refresh over the new list would hold \<^verbatim>\<open>m-b\<close> and not \<^verbatim>\<open>m-a\<close>. The same
  happens when the request passes the middleware first.
\<close>

theorem update_openai_urls_keeps_stale_catalog:
  "OPENAI_API_BASE_URLS (snd (update_openai_urls sample_world [''http://b''] sample_state))
     = [''http://b'']
   \<and> map_of (MODELS (snd (update_openai_urls sample_world [''http://b''] sample_state)))
       (JStr ''m-a'') \<noteq> None
   \<and> map_of (MODELS (snd (update_openai_urls sample_world [''http://b''] sample_state)))
       (JStr ''m-b'') = None
   \<and> map_of (MODELS (snd (get_all_models sample_world False
         (snd (update_openai_urls sample_world [''http://b''] sample_state)))))
       (JStr ''m-a'') = None
   \<and> map_of (MODELS (snd (get_all_models sample_world False
         (snd (update_openai_urls sample_world [''http://b''] sample_state)))))
       (JStr ''m-b'') \<noteq> None
   \<and> MODELS (snd (check_url sample_world (update_openai_urls sample_world [''http://b''])
         sample_state))
     = MODELS (snd (update_openai_urls sample_world [''http://b''] sample_state))"
  by code_simp

section \<open>Backends that fail during a refresh\<close>

text \<open>
  A request that raises, for whatever reason, is turned into \<^verbatim>\<open>None\<close> by \<open>fetch_url\<close>, and
  a \<^verbatim>\<open>None\<close> result adds nothing to the merged list and raises nothing.
\<close>

lemma failed_request_is_skipped:
  assumes "http_get_json w (OPENAI_API_BASE_URLS s ! idx @ ''/models'')
             (reconcile_keys (OPENAI_API_BASE_URLS s) (OPENAI_API_KEYS s) ! idx) = Inl e"
  shows "backend_part w s idx = Inr []"
  using assms by (simp add: backend_part_def fetch_url_def response_models_def backend_entries_def)

text \<open>An object without a \<^verbatim>\<open>data\<close> member, such as an error body, is skipped as well.\<close>

lemma object_without_data_is_skipped:
  assumes "''data'' \<notin> fst ` set d"
  shows "ebind (response_models (JObj d)) (backend_entries urls idx) = Inr []"
  using assms by (simp add: response_models_def backend_entries_def)

text \<open>
  Claim C3 at a failing input. Of two backends the first answers with a catalog that lists
  \<^verbatim>\<open>m-a\<close> and the second with the JSON object \<^verbatim>\<open>{"data": {"models": []}}\<close>, which is not
  a catalog. The refresh raises \<open>TypeError\<close> to its caller, the model listing that called it
  raises too, and the catalog stays empty: the model of the backend that answered
  correctly is not in it.
\<close>

theorem odd_shape_aborts_refresh:
  "get_all_models odd_shape_world False two_backends = (Inl TypeError, two_backends)
   \<and> fst (get_models odd_shape_world None sample_user two_backends) = Inl TypeError
   \<and> MODELS (snd (get_all_models odd_shape_world False two_backends)) = []"
  by code_simp

section \<open>The filter on OpenAI's own models\<close>

lemma traverse_Inr_Cons:
  "traverse f (x # xs) = Inr rs \<longleftrightarrow> (\<exists>y ys. f x = Inr y \<and> traverse f xs = Inr ys \<and> rs = y # ys)"
  by (auto split: sum.splits)

lemma traverse_list_all2:
  "traverse f xs = Inr ys \<longleftrightarrow> list_all2 (\<lambda>x y. f x = Inr y) xs ys"
proof (induction xs arbitrary: ys)
  case Nil
  then show ?case by auto
next
  case (Cons x xs)
  show ?case
    unfolding traverse_Inr_Cons Cons.IH by (auto simp: list_all2_Cons1)
qed

lemma subscript_Inr:
  "subscript m k = Inr v \<longleftrightarrow> (\<exists>d. m = JObj d \<and> map_of d k = Some v)"
  by (cases m) (auto split: option.splits)

lemma model_entry_Some:
  assumes "model_entry urls idx m = Inr (Some e)"
  shows "(\<exists>d i. m = JObj d \<and> map_of d ''id'' = Some i \<and> e = tagged_entry idx d i)
       \<and> (str_in ''api.openai.com'' (urls ! idx) \<longrightarrow> gpt_model m)"
  using assms
  by (auto simp: model_entry_def index_def ebind_eq_Inr gpt_model_def subscript_Inr
        split: if_splits json.splits option.splits)

lemma model_entry_None:
  assumes "model_entry urls idx m = Inr None"
  shows "str_in ''api.openai.com'' (urls ! idx) \<and> \<not> gpt_model m"
  using assms
  by (auto simp: model_entry_def index_def ebind_eq_Inr gpt_model_def subscript_Inr
        split: if_splits json.splits)

lemma map_filter_id_Cons:
  "List.map_filter id (r # rs) = (case r of None \<Rightarrow> List.map_filter id rs
                                   | Some e \<Rightarrow> e # List.map_filter id rs)"
  by (simp add: List.map_filter_def split: option.splits)

lemma kept_entries:
  assumes "traverse (model_entry urls idx) ms = Inr rs"
  shows "list_all2 (\<lambda>m e. \<exists>d i. m = JObj d \<and> map_of d ''id'' = Some i
                             \<and> e = tagged_entry idx d i)
           (if str_in ''api.openai.com'' (urls ! idx) then filter gpt_model ms else ms)
           (List.map_filter id rs)"
  using assms
proof (induction ms arbitrary: rs)
  case Nil
  then show ?case by (simp add: List.map_filter_def)
next
  case (Cons m ms)
  from Cons.prems obtain r rs' where r: "model_entry urls idx m = Inr r"
    and rs': "traverse (model_entry urls idx) ms = Inr rs'" and rs: "rs = r # rs'"
    unfolding traverse_Inr_Cons by blast
  note ih = Cons.IH [OF rs']
  show ?case
  proof (cases r)
    case None
    with r have "str_in ''api.openai.com'' (urls ! idx)" "\<not> gpt_model m"
      using model_entry_None by blast+
    with ih show ?thesis by (simp add: rs None map_filter_id_Cons)
  next
    case (Some e)
    with r have "\<exists>d i. m = JObj d \<and> map_of d ''id'' = Some i \<and> e = tagged_entry idx d i"
      and "str_in ''api.openai.com'' (urls ! idx) \<longrightarrow> gpt_model m"
      using model_entry_Some by blast+
    with ih show ?thesis
      by (cases "str_in ''api.openai.com'' (urls ! idx)")
         (simp_all add: rs Some map_filter_id_Cons)
  qed
qed

lemma backend_entries_usable:
  assumes "backend_entries urls idx models = Inr part"
    and "models \<noteq> JNull" and "contains models ''error'' = Inr False"
    and "iter_json models = Inr ms"
  shows "list_all2 (\<lambda>m e. \<exists>d i. m = JObj d \<and> map_of d ''id'' = Some i
                             \<and> e = tagged_entry idx d i)
           (if str_in ''api.openai.com'' (urls ! idx) then filter gpt_model ms else ms) part"
proof -
  from assms obtain rs where "traverse (model_entry urls idx) ms = Inr rs"
    and "part = List.map_filter id rs"
    by (auto simp: backend_entries_def ebind_eq_Inr)
  then show ?thesis using kept_entries by blast
qed

lemma merge_from_parts:
  assumes "merge_from urls n model_lists = Inr merged"
  shows "\<exists>parts. length parts = length model_lists \<and> merged = concat parts
           \<and> (\<forall>j < length model_lists.
                 backend_entries urls (n + j) (model_lists ! j) = Inr (parts ! j))"
  using assms
proof (induction model_lists arbitrary: n merged)
  case Nil
  then show ?case by simp
next
  case (Cons models rest)
  from Cons.prems obtain part more where part: "backend_entries urls n models = Inr part"
    and more: "merge_from urls (Suc n) rest = Inr more" and merged: "merged = part @ more"
    by (auto simp: ebind_eq_Inr)
  from Cons.IH [OF more] obtain parts where parts: "length parts = length rest"
    "more = concat parts"
    "\<forall>j < length rest. backend_entries urls (Suc n + j) (rest ! j) = Inr (parts ! j)"
    by blast
  have "\<forall>j < length (models # rest).
          backend_entries urls (n + j) ((models # rest) ! j) = Inr ((part # parts) ! j)"
  proof (intro allI impI)
    fix j assume "j < length (models # rest)"
    then show "backend_entries urls (n + j) ((models # rest) ! j) = Inr ((part # parts) ! j)"
      using part parts(3) by (cases j) auto
  qed
  moreover have "length (part # parts) = length (models # rest)" using parts(1) by simp
  moreover have "merged = concat (part # parts)" using merged parts(2) by simp
  ultimately show ?case by blast
qed

lemma filter_gpt_Inr:
  assumes "filter_gpt data = Inr kept"
  shows "\<exists>ms. iter_json data = Inr ms \<and> kept = filter gpt_model ms"
proof -
  let ?f = "\<lambda>model. ebind (subscript model ''id'') (\<lambda>i.
              ebind (contains i ''gpt'') (\<lambda>keep. Inr (if keep then Some model else None)))"
  have step: "traverse ?f ms = Inr rs \<Longrightarrow> List.map_filter id rs = filter gpt_model ms"
    for ms rs
  proof (induction ms arbitrary: rs)
    case Nil
    then show ?case by (simp add: List.map_filter_def)
  next
    case (Cons m ms)
    from Cons.prems obtain r rs' where r: "?f m = Inr r"
      and rs': "traverse ?f ms = Inr rs'" and rs: "rs = r # rs'"
      unfolding traverse_Inr_Cons by blast
    from r have "r = (if gpt_model m then Some m else None)"
      by (auto simp: ebind_eq_Inr gpt_model_def)
    with Cons.IH [OF rs'] show ?case by (simp add: rs map_filter_id_Cons)
  qed
  from assms obtain ms rs where "iter_json data = Inr ms" "traverse ?f ms = Inr rs"
    "kept = List.map_filter id rs"
    by (auto simp: filter_gpt_def ebind_eq_Inr)
  with step show ?thesis by blast
qed

lemma get_models_explicit:
  assumes "fst (get_models w (Some n) usr s) = Inr result"
  shows "\<exists>url key r body.
           py_index (OPENAI_API_BASE_URLS s) n = Inr url
         \<and> py_index (OPENAI_API_KEYS s) n = Inr key
         \<and> requests_get w (url @ ''/models'') key = Inr r
         \<and> json_body r = Inr body
         \<and> (if str_in ''api.openai.com'' url then
              \<exists>d data ms. body = JObj d \<and> map_of d ''data'' = Some data
                \<and> iter_json data = Inr ms
                \<and> result = JObj (AList.update ''data'' (JList (filter gpt_model ms)) d)
            else result = body)"
proof -
  from assms obtain url key where url: "py_index (OPENAI_API_BASE_URLS s) n = Inr url"
    and key: "py_index (OPENAI_API_KEYS s) n = Inr key"
    and req: "(case requests_get w (url @ ''/models'') key of
                Inl e \<Rightarrow> Inl (listing_error w e None)
              | Inr r \<Rightarrow>
                  (case listing_of url r of
                     Inl e \<Rightarrow> Inl (listing_error w e (Some r))
                   | Inr response_data \<Rightarrow> Inr response_data)) = Inr result"
    by (auto simp: get_models_def ebind_eq_Inr)
  from req obtain r where r: "requests_get w (url @ ''/models'') key = Inr r"
    and l: "listing_of url r = Inr result"
    by (auto split: sum.splits)
  from l obtain body where body: "json_body r = Inr body"
    and rest: "(if str_in ''api.openai.com'' url then
          ebind (subscript body ''data'') (\<lambda>data.
          ebind (filter_gpt data) (\<lambda>kept.
            (case body of
               JObj d \<Rightarrow> Inr (JObj (AList.update ''data'' (JList kept) d))
             | _ \<Rightarrow> Inl TypeError)))
        else Inr body) = Inr result"
    by (auto simp: listing_of_def ebind_eq_Inr split: if_splits)
  have "if str_in ''api.openai.com'' url then
              \<exists>d data ms. body = JObj d \<and> map_of d ''data'' = Some data
                \<and> iter_json data = Inr ms
                \<and> result = JObj (AList.update ''data'' (JList (filter gpt_model ms)) d)
            else result = body"
  proof (cases "str_in ''api.openai.com'' url")
    case True
    with rest obtain data kept where "subscript body ''data'' = Inr data"
      "filter_gpt data = Inr kept"
      "(case body of JObj d \<Rightarrow> Inr (JObj (AList.update ''data'' (JList kept) d))
        | _ \<Rightarrow> Inl TypeError) = Inr result"
      by (auto simp: ebind_eq_Inr)
    then show ?thesis
      using True filter_gpt_Inr [of data kept] by (auto simp: subscript_Inr)
  next
    case False
    with rest show ?thesis by simp
  qed
  with url key r body show ?thesis by blast
qed

text \<open>
  Claim C9, amended. The filter is chosen by a substring test on the backend's base URL.
  In the merge step, the entries that a usable model list of backend \<open>idx\<close> contributes are,
  in order, the tagged entries of its models whose id contains \<^verbatim>\<open>gpt\<close> when the URL contains
  \<^verbatim>\<open>api.openai.com\<close>, and the tagged entries of all its models when the URL does not.
  In the model listing by explicit index, the \<^verbatim>\<open>data\<close> list of the result is the backend's
  list restricted to the models whose id contains \<^verbatim>\<open>gpt\<close> when the URL contains
  \<^verbatim>\<open>api.openai.com\<close>, and the result is the backend's body unchanged when it does not.
  The canonical OpenAI URL is one of the URLs that contain \<^verbatim>\<open>api.openai.com\<close>.
\<close>

theorem gpt_filter_by_url_substring:
  "(merge_models_lists urls model_lists = Inr merged \<longrightarrow>
      (\<exists>parts. length parts = length model_lists \<and> merged = concat parts
         \<and> (\<forall>idx < length model_lists. \<forall>ms.
               model_lists ! idx \<noteq> JNull
               \<and> contains (model_lists ! idx) ''error'' = Inr False
               \<and> iter_json (model_lists ! idx) = Inr ms \<longrightarrow>
               list_all2 (\<lambda>m e. \<exists>d i. m = JObj d \<and> map_of d ''id'' = Some i
                                    \<and> e = tagged_entry idx d i)
                 (if str_in ''api.openai.com'' (urls ! idx) then filter gpt_model ms else ms)
                 (parts ! idx))))
   \<and> (fst (get_models w (Some n) usr s) = Inr result \<longrightarrow>
        (\<exists>url key r body.
           py_index (OPENAI_API_BASE_URLS s) n = Inr url
         \<and> py_index (OPENAI_API_KEYS s) n = Inr key
         \<and> requests_get w (url @ ''/models'') key = Inr r
         \<and> json_body r = Inr body
         \<and> (if str_in ''api.openai.com'' url then
              \<exists>d data ms. body = JObj d \<and> map_of d ''data'' = Some data
                \<and> iter_json data = Inr ms
                \<and> result = JObj (AList.update ''data'' (JList (filter gpt_model ms)) d)
            else result = body)))
   \<and> str_in ''api.openai.com'' canonical_openai_url"
proof (intro conjI impI)
  assume "merge_models_lists urls model_lists = Inr merged"
  then have "merge_from urls 0 model_lists = Inr merged"
    by (simp add: merge_models_lists_def)
  from merge_from_parts [OF this] obtain parts where
    len: "length parts = length model_lists" and cat: "merged = concat parts"
    and each: "\<forall>j < length model_lists.
                 backend_entries urls j (model_lists ! j) = Inr (parts ! j)"
    by auto
  have "\<forall>idx < length model_lists. \<forall>ms.
               model_lists ! idx \<noteq> JNull
               \<and> contains (model_lists ! idx) ''error'' = Inr False
               \<and> iter_json (model_lists ! idx) = Inr ms \<longrightarrow>
               list_all2 (\<lambda>m e. \<exists>d i. m = JObj d \<and> map_of d ''id'' = Some i
                                    \<and> e = tagged_entry idx d i)
                 (if str_in ''api.openai.com'' (urls ! idx) then filter gpt_model ms else ms)
                 (parts ! idx)"
    using each backend_entries_usable by blast
  with len cat show "\<exists>parts. length parts = length model_lists \<and> merged = concat parts
         \<and> (\<forall>idx < length model_lists. \<forall>ms.
               model_lists ! idx \<noteq> JNull
               \<and> contains (model_lists ! idx) ''error'' = Inr False
               \<and> iter_json (model_lists ! idx) = Inr ms \<longrightarrow>
               list_all2 (\<lambda>m e. \<exists>d i. m = JObj d \<and> map_of d ''id'' = Some i
                                    \<and> e = tagged_entry idx d i)
                 (if str_in ''api.openai.com'' (urls ! idx) then filter gpt_model ms else ms)
                 (parts ! idx))"
    by blast
next
  assume "fst (get_models w (Some n) usr s) = Inr result"
  then show "\<exists>url key r body.
           py_index (OPENAI_API_BASE_URLS s) n = Inr url
         \<and> py_index (OPENAI_API_KEYS s) n = Inr key
         \<and> requests_get w (url @ ''/models'') key = Inr r
         \<and> json_body r = Inr body
         \<and> (if str_in ''api.openai.com'' url then
              \<exists>d data ms. body = JObj d \<and> map_of d ''data'' = Some data
                \<and> iter_json data = Inr ms
                \<and> result = JObj (AList.update ''data'' (JList (filter gpt_model ms)) d)
            else result = body)"
    by (rule get_models_explicit)
next
  show "str_in ''api.openai.com'' canonical_openai_url"
    by code_simp
qed

text \<open>
  With the canonical endpoint as backend 0 and another backend as backend 1: \<^verbatim>\<open>dall-e-3\<close>
  is dropped from the first and kept from the second, in the merge and in the direct listing.
\<close>

theorem gpt_filter_by_url_substring_witness:
  "merge_models_lists (OPENAI_API_BASE_URLS openai_state)
     [JList [JObj [(''id'', JStr ''gpt-4'')], JObj [(''id'', JStr ''dall-e-3'')]],
      JList [JObj [(''id'', JStr ''dall-e-3'')]]]
   = Inr [tagged_entry 0 [(''id'', JStr ''gpt-4'')] (JStr ''gpt-4''),
          tagged_entry 1 [(''id'', JStr ''dall-e-3'')] (JStr ''dall-e-3'')]
   \<and> fst (get_models listing_world (Some 0) sample_user openai_state)
     = Inr (listing [''gpt-4''])
   \<and> fst (get_models listing_world (Some 1) sample_user openai_state)
     = Inr (listing [''gpt-4'', ''dall-e-3''])"
proof -
  have merge: "merge_models_lists (OPENAI_API_BASE_URLS openai_state)
     [JList [JObj [(''id'', JStr ''gpt-4'')], JObj [(''id'', JStr ''dall-e-3'')]],
      JList [JObj [(''id'', JStr ''dall-e-3'')]]]
   = Inr [tagged_entry 0 [(''id'', JStr ''gpt-4'')] (JStr ''gpt-4''),
          tagged_entry 1 [(''id'', JStr ''dall-e-3'')] (JStr ''dall-e-3'')]"
    by code_simp
  have first: "fst (get_models listing_world (Some 0) sample_user openai_state)
     = Inr (listing [''gpt-4''])"
    by code_simp
  have second: "fst (get_models listing_world (Some 1) sample_user openai_state)
     = Inr (listing [''gpt-4'', ''dall-e-3''])"
    by code_simp
  show ?thesis
    using merge first second
      gpt_filter_by_url_substring [of "OPENAI_API_BASE_URLS openai_state"
        "[JList [JObj [(''id'', JStr ''gpt-4'')], JObj [(''id'', JStr ''dall-e-3'')]],
          JList [JObj [(''id'', JStr ''dall-e-3'')]]]"
        "[tagged_entry 0 [(''id'', JStr ''gpt-4'')] (JStr ''gpt-4''),
          tagged_entry 1 [(''id'', JStr ''dall-e-3'')] (JStr ''dall-e-3'')]"
        listing_world 0 sample_user openai_state "listing [''gpt-4'']"]
    by blast
qed

text \<open>
  The claim as stated fails for a backend that is not the canonical OpenAI URL but has
  \<^verbatim>\<open>api.openai.com\<close> somewhere in its URL: its model without \<^verbatim>\<open>gpt\<close> is dropped, while
  the same list under a URL without that substring passes.
\<close>

theorem non_canonical_url_filtered_counterexample:
  "''https://gateway.example.com/api.openai.com/v1'' \<noteq> canonical_openai_url
   \<and> merge_models_lists [''https://gateway.example.com/api.openai.com/v1'']
       [JList [JObj [(''id'', JStr ''llama-3'')]]] = Inr []
   \<and> merge_models_lists [''https://gateway.example.com/v1'']
       [JList [JObj [(''id'', JStr ''llama-3'')]]]
     = Inr [tagged_entry 0 [(''id'', JStr ''llama-3'')] (JStr ''llama-3'')]"
  by code_simp

section \<open>The catalog built by a refresh\<close>

lemma catalog_of_map_of:
  assumes "catalog_of acc data = Inr cat"
  shows "map_of cat k =
           (if filter (\<lambda>m. model_key m = Inr k) data = [] then map_of acc k
            else Some (last (filter (\<lambda>m. model_key m = Inr k) data)))"
  using assms
proof (induction data arbitrary: acc)
  case Nil
  then show ?case by simp
next
  case (Cons m data)
  from Cons.prems obtain k' where k': "model_key m = Inr k'"
    and rest: "catalog_of (AList.update k' m acc) data = Inr cat"
    by (auto simp: ebind_eq_Inr)
  show ?case
    unfolding Cons.IH [OF rest] using k' by (auto simp: update_conv')
qed

lemma catalog_of_distinct:
  assumes "catalog_of acc data = Inr cat" and "distinct (map fst acc)"
  shows "distinct (map fst cat)"
  using assms
proof (induction data arbitrary: acc)
  case Nil
  then show ?case by simp
next
  case (Cons m data)
  from Cons.prems(1) obtain k' where
    rest: "catalog_of (AList.update k' m acc) data = Inr cat"
    by (auto simp: ebind_eq_Inr)
  show ?case
    using Cons.IH [OF rest] Cons.prems(2) by (simp add: distinct_update)
qed

lemma hash_key_JStr: "hash_key v = Inr (JStr i) \<longleftrightarrow> v = JStr i"
  by (cases v) (auto split: if_splits)

lemma model_key_JStr:
  "model_key m = Inr (JStr i) \<longleftrightarrow> subscript m ''id'' = Inr (JStr i)"
  by (auto simp: model_key_def ebind_eq_Inr hash_key_JStr)

lemma tagged_entry_fields:
  assumes "map_of d ''id'' = Some i"
  shows "subscript (tagged_entry idx d i) ''id'' = Inr i"
    and "subscript (tagged_entry idx d i) ''urlIdx'' = Inr (JInt (int idx))"
  using assms by (simp_all add: tagged_entry_def update_conv')

lemma backend_entries_tagged:
  assumes "backend_entries urls idx models = Inr part" and "e \<in> set part"
  shows "\<exists>d i. map_of d ''id'' = Some i \<and> e = tagged_entry idx d i"
proof -
  from assms obtain ms rs where rs: "traverse (model_entry urls idx) ms = Inr rs"
    and part: "part = List.map_filter id rs"
    by (auto simp: backend_entries_def ebind_eq_Inr split: if_splits)
  from assms(2) part have "Some e \<in> set rs"
    by (auto simp: List.map_filter_def)
  then obtain n where n: "n < length rs" "rs ! n = Some e"
    by (auto simp: in_set_conv_nth)
  from rs have "list_all2 (\<lambda>m r. model_entry urls idx m = Inr r) ms rs"
    by (simp add: traverse_list_all2)
  with n have "model_entry urls idx (ms ! n) = Inr (Some e)"
    by (auto simp: list_all2_conv_all_nth)
  from model_entry_Some [OF this] show ?thesis by blast
qed

lemma last_filter_concat:
  assumes "idx < length parts"
    and "\<exists>e \<in> set (parts ! idx). P e"
    and "\<forall>j. idx < j \<and> j < length parts \<longrightarrow> (\<forall>e \<in> set (parts ! j). \<not> P e)"
  shows "last (filter P (concat parts)) \<in> set (parts ! idx)
       \<and> P (last (filter P (concat parts)))
       \<and> filter P (concat parts) \<noteq> []"
proof -
  have split: "parts = take idx parts @ parts ! idx # drop (Suc idx) parts"
    using assms(1) by (simp add: id_take_nth_drop)
  have "\<forall>e \<in> set (concat (drop (Suc idx) parts)). \<not> P e"
  proof
    fix e assume "e \<in> set (concat (drop (Suc idx) parts))"
    then obtain p where p: "p \<in> set (drop (Suc idx) parts)" "e \<in> set p" by auto
    then obtain n where n: "n < length (drop (Suc idx) parts)" "drop (Suc idx) parts ! n = p"
      by (auto simp: in_set_conv_nth)
    then have "p = parts ! (Suc idx + n)" "Suc idx + n < length parts" by auto
    moreover have "idx < Suc idx + n" by simp
    ultimately show "\<not> P e" using assms(3) p(2) by blast
  qed
  then have tail: "filter P (concat (drop (Suc idx) parts)) = []"
    by (simp add: filter_empty_conv)
  have mid: "filter P (parts ! idx) \<noteq> []"
    using assms(2) by (simp add: filter_empty_conv)
  have "filter P (concat parts)
          = filter P (concat (take idx parts)) @ filter P (parts ! idx)"
    by (subst split) (simp add: tail)
  then have l: "last (filter P (concat parts)) = last (filter P (parts ! idx))"
    and ne: "filter P (concat parts) \<noteq> []"
    using mid by simp_all
  have "last (filter P (parts ! idx)) \<in> set (filter P (parts ! idx))"
    using mid by (rule last_in_set)
  then show ?thesis using l ne by simp
qed

lemma static_keys:
  "map model_key (moonshot_models t1 @ qianfan_models t2)
     = map (\<lambda>i. Inr (JStr i)) static_ids"
  by (simp add: moonshot_models_def qianfan_models_def static_entry_def static_ids_def
        model_key_def)

lemma distinct_static_ids: "distinct static_ids"
  by (simp add: static_ids_def)

lemma refresh_parts:
  assumes "\<not> (length (OPENAI_API_KEYS s) = 1 \<and> OPENAI_API_KEYS s ! 0 = '''')"
    and "ENABLE_OPENAI_API s = Some True"
    and "get_all_models w False s = (Inr result, s')"
  obtains parts where
    "length parts = length (OPENAI_API_BASE_URLS s)"
    "\<forall>j < length (OPENAI_API_BASE_URLS s). backend_part w s j = Inr (parts ! j)"
    "catalog_of [] (concat parts @ moonshot_models (clock1 w) @ qianfan_models (clock2 w))
       = Inr (MODELS s')"
proof -
  let ?urls = "OPENAI_API_BASE_URLS s"
  let ?ks = "reconcile_keys ?urls (OPENAI_API_KEYS s)"
  let ?responses = "map (\<lambda>(url, key). fetch_url w (url @ ''/models'') key) (zip ?urls ?ks)"
  have len: "length ?ks = length ?urls" by (rule length_reconcile_keys)
  from assms(3) obtain model_lists merged catalog where
    lists: "traverse response_models ?responses = Inr model_lists"
    and merged: "merge_models_lists ?urls model_lists = Inr merged"
    and cat: "catalog_of [] (merged @ moonshot_models (clock1 w) @ qianfan_models (clock2 w))
                = Inr catalog"
    and s': "MODELS s' = catalog"
    unfolding get_all_models_aggregate [OF assms(1,2)]
    by (auto simp: Let_def ebind_eq_Inr split: sum.splits prod.splits)
  from lists have all2: "list_all2 (\<lambda>x y. response_models x = Inr y) ?responses model_lists"
    by (simp add: traverse_list_all2)
  then have ll: "length model_lists = length ?urls"
    using len by (auto dest: list_all2_lengthD)
  from merged have "merge_from ?urls 0 model_lists = Inr merged"
    by (simp add: merge_models_lists_def)
  from merge_from_parts [OF this] obtain parts where
    plen: "length parts = length model_lists" and pcat: "merged = concat parts"
    and each: "\<forall>j < length model_lists.
                 backend_entries ?urls j (model_lists ! j) = Inr (parts ! j)"
    by auto
  have "backend_part w s j = Inr (parts ! j)" if j: "j < length ?urls" for j
  proof -
    have "?responses ! j = fetch_url w (?urls ! j @ ''/models'') (?ks ! j)"
      using j len by simp
    moreover have "response_models (?responses ! j) = Inr (model_lists ! j)"
      using all2 j len by (auto simp: list_all2_conv_all_nth)
    ultimately show ?thesis
      using each j ll by (simp add: backend_part_def)
  qed
  then show thesis
    using plen ll pcat cat s' by (intro that [of parts]) simp_all
qed

lemma static_not_keyed:
  assumes "i \<notin> set static_ids"
  shows "filter (\<lambda>m. model_key m = Inr (JStr i)) (moonshot_models t1 @ qianfan_models t2) = []"
proof -
  have "\<forall>m \<in> set (moonshot_models t1 @ qianfan_models t2). model_key m \<noteq> Inr (JStr i)"
  proof
    fix m assume "m \<in> set (moonshot_models t1 @ qianfan_models t2)"
    then have "model_key m \<in> set (map model_key (moonshot_models t1 @ qianfan_models t2))"
      unfolding set_map by (rule imageI)
    then have "model_key m \<in> (\<lambda>i. Inr (JStr i)) ` set static_ids"
      unfolding static_keys by simp
    with assms show "model_key m \<noteq> Inr (JStr i)" by auto
  qed
  then show ?thesis by (simp add: filter_empty_conv)
qed

lemma filter_distinct_key:
  assumes "distinct (map f xs)" and "x \<in> set xs"
  shows "filter (\<lambda>y. f y = f x) xs = [x]"
  using assms
proof (induction xs)
  case Nil
  then show ?case by simp
next
  case (Cons a xs)
  show ?case
  proof (cases "a = x")
    case True
    with Cons.prems(1) have "f x \<notin> f ` set xs" by simp
    then have "\<forall>y \<in> set xs. f y \<noteq> f x" by (metis image_eqI)
    then have "filter (\<lambda>y. f y = f x) xs = []" by (simp add: filter_empty_conv)
    with True show ?thesis by simp
  next
    case False
    with Cons.prems have "x \<in> set xs" "f a \<noteq> f x" "distinct (map f xs)" by auto
    with Cons.IH show ?thesis by simp
  qed
qed

lemma static_keyed_once:
  assumes "entry \<in> set (moonshot_models t1 @ qianfan_models t2)"
  shows "\<exists>i \<in> set static_ids. subscript entry ''id'' = Inr (JStr i)
           \<and> filter (\<lambda>m. model_key m = Inr (JStr i)) (moonshot_models t1 @ qianfan_models t2)
               = [entry]"
proof -
  let ?static = "moonshot_models t1 @ qianfan_models t2"
  have "model_key entry \<in> set (map model_key ?static)"
    using assms unfolding set_map by (rule imageI)
  then obtain i where i: "i \<in> set static_ids" "model_key entry = Inr (JStr i)"
    unfolding static_keys by auto
  have "distinct (map model_key ?static)"
    unfolding static_keys using distinct_static_ids by (simp add: distinct_map inj_on_def)
  from filter_distinct_key [OF this assms]
  have "filter (\<lambda>m. model_key m = Inr (JStr i)) ?static = [entry]"
    by (simp add: i(2))
  with i show ?thesis by (auto simp: model_key_JStr)
qed

text \<open>
  Claim C2, amended. After a refresh that completes, the stored catalog has one entry per
  key. For a model id that is not one of the twelve static ids: if backend \<open>idx\<close> contributes
  an entry with that id to the merge and no later backend does, the catalog maps the id to
  an entry with that id whose \<^verbatim>\<open>urlIdx\<close> is \<open>idx\<close>; if no backend contributes the id, the
  catalog has no entry for it. Every static entry is in the catalog under its own id,
  whatever the backends contribute.
\<close>

theorem catalog_last_writer_wins:
  assumes "\<not> (length (OPENAI_API_KEYS s) = 1 \<and> OPENAI_API_KEYS s ! 0 = '''')"
    and "ENABLE_OPENAI_API s = Some True"
    and "get_all_models w False s = (Inr result, s')"
  shows "distinct (map fst (MODELS s'))
       \<and> (\<forall>i idx. i \<notin> set static_ids \<and> idx < length (OPENAI_API_BASE_URLS s)
             \<and> contributes w s idx i
             \<and> (\<forall>j. idx < j \<and> j < length (OPENAI_API_BASE_URLS s) \<longrightarrow> \<not> contributes w s j i)
             \<longrightarrow> (\<exists>entry. map_of (MODELS s') (JStr i) = Some entry
                    \<and> subscript entry ''id'' = Inr (JStr i)
                    \<and> subscript entry ''urlIdx'' = Inr (JInt (int idx))))
       \<and> (\<forall>i. i \<notin> set static_ids
             \<and> (\<forall>idx < length (OPENAI_API_BASE_URLS s). \<not> contributes w s idx i)
             \<longrightarrow> map_of (MODELS s') (JStr i) = None)
       \<and> (\<forall>entry \<in> set (moonshot_models (clock1 w) @ qianfan_models (clock2 w)).
             \<exists>i \<in> set static_ids. subscript entry ''id'' = Inr (JStr i)
               \<and> map_of (MODELS s') (JStr i) = Some entry)"
proof -
  let ?urls = "OPENAI_API_BASE_URLS s"
  let ?static = "moonshot_models (clock1 w) @ qianfan_models (clock2 w)"
  from assms obtain parts where
    plen: "length parts = length ?urls"
    and part: "\<forall>j < length ?urls. backend_part w s j = Inr (parts ! j)"
    and cat: "catalog_of [] (concat parts @ ?static) = Inr (MODELS s')"
    by (rule refresh_parts)
  let ?P = "\<lambda>i m. model_key m = Inr (JStr i)"
  have look: "map_of (MODELS s') (JStr i) =
           (if filter (?P i) (concat parts) @ filter (?P i) ?static = [] then None
            else Some (last (filter (?P i) (concat parts) @ filter (?P i) ?static)))" for i
    using catalog_of_map_of [OF cat, of "JStr i"] by simp
  have contrib: "contributes w s j i \<longleftrightarrow> (\<exists>e \<in> set (parts ! j). ?P i e)"
    if "j < length ?urls" for i j
    using part that by (simp add: contributes_def model_key_JStr)
  have tagged: "\<exists>d v. map_of d ''id'' = Some v \<and> e = tagged_entry j d v"
    if "j < length ?urls" "e \<in> set (parts ! j)" for e j
  proof -
    from part that(1) have "backend_part w s j = Inr (parts ! j)" by simp
    then obtain models where "backend_entries ?urls j models = Inr (parts ! j)"
      by (auto simp: backend_part_def ebind_eq_Inr)
    then show ?thesis using that(2) by (rule backend_entries_tagged)
  qed
  have c1: "distinct (map fst (MODELS s'))"
    using cat by (rule catalog_of_distinct) simp
  have c2: "\<exists>entry. map_of (MODELS s') (JStr i) = Some entry
                    \<and> subscript entry ''id'' = Inr (JStr i)
                    \<and> subscript entry ''urlIdx'' = Inr (JInt (int idx))"
    if i: "i \<notin> set static_ids" and idx: "idx < length ?urls"
      and yes: "contributes w s idx i"
      and later: "\<forall>j. idx < j \<and> j < length ?urls \<longrightarrow> \<not> contributes w s j i" for i idx
  proof -
    have a: "idx < length parts" using idx plen by simp
    have b: "\<exists>e \<in> set (parts ! idx). ?P i e" using yes contrib [OF idx] by simp
    have c: "\<forall>j. idx < j \<and> j < length parts \<longrightarrow> (\<forall>e \<in> set (parts ! j). \<not> ?P i e)"
      using later contrib plen by auto
    let ?e = "last (filter (?P i) (concat parts))"
    from last_filter_concat [of idx parts "?P i", OF a b c]
    have mem: "?e \<in> set (parts ! idx)" and key: "?P i ?e"
      and ne: "filter (?P i) (concat parts) \<noteq> []"
      by simp_all
    have "map_of (MODELS s') (JStr i) = Some ?e"
      unfolding look static_not_keyed [OF i] using ne by simp
    moreover have "subscript ?e ''id'' = Inr (JStr i)"
      using key by (simp add: model_key_JStr)
    moreover have "subscript ?e ''urlIdx'' = Inr (JInt (int idx))"
      using tagged [OF idx mem] by (auto simp: tagged_entry_fields)
    ultimately show ?thesis by blast
  qed
  have c3: "map_of (MODELS s') (JStr i) = None"
    if i: "i \<notin> set static_ids"
      and no: "\<forall>idx < length ?urls. \<not> contributes w s idx i" for i
  proof -
    have "\<forall>e \<in> set (concat parts). \<not> ?P i e"
    proof
      fix e assume "e \<in> set (concat parts)"
      then obtain p where "p \<in> set parts" "e \<in> set p" by auto
      then obtain j where "j < length parts" "e \<in> set (parts ! j)"
        by (metis in_set_conv_nth)
      with no contrib plen show "\<not> ?P i e" by auto
    qed
    then have "filter (?P i) (concat parts) = []" by (simp add: filter_empty_conv)
    then show ?thesis unfolding look static_not_keyed [OF i] by simp
  qed
  have c4: "\<exists>i \<in> set static_ids. subscript entry ''id'' = Inr (JStr i)
               \<and> map_of (MODELS s') (JStr i) = Some entry"
    if "entry \<in> set ?static" for entry
  proof -
    from static_keyed_once [OF that] obtain i where i: "i \<in> set static_ids"
      "subscript entry ''id'' = Inr (JStr i)" "filter (?P i) ?static = [entry]"
      by blast
    have "map_of (MODELS s') (JStr i) = Some entry"
      unfolding look i(3) by simp
    with i show ?thesis by blast
  qed
  from c1 c2 c3 c4 show ?thesis by blast
qed

text \<open>
  Two backends that both list \<^verbatim>\<open>shared\<close>: the catalog has the entry of backend 1 for it,
  the entry of backend 0 for the model that only backend 0 lists, and nothing for an id that
  nobody lists.
\<close>

theorem catalog_last_writer_wins_witness:
  "map_of (MODELS (snd (get_all_models overlap_world False two_backends))) (JStr ''shared'')
     = Some (tagged_entry 1 [(''id'', JStr ''shared'')] (JStr ''shared''))
   \<and> subscript (tagged_entry 1 [(''id'', JStr ''shared'')] (JStr ''shared'')) ''urlIdx''
     = Inr (JInt 1)
   \<and> map_of (MODELS (snd (get_all_models overlap_world False two_backends))) (JStr ''m-a'')
     = Some (tagged_entry 0 [(''id'', JStr ''m-a'')] (JStr ''m-a''))
   \<and> map_of (MODELS (snd (get_all_models overlap_world False two_backends))) (JStr ''m-b'')
     = None"
proof -
  let ?s' = "snd (get_all_models overlap_world False two_backends)"
  have a1: "\<not> (length (OPENAI_API_KEYS two_backends) = 1
               \<and> OPENAI_API_KEYS two_backends ! 0 = '''')"
    and a2: "ENABLE_OPENAI_API two_backends = Some True"
    by (simp_all add: two_backends_def sample_state_def)
  have ok: "fst (get_all_models overlap_world False two_backends)
              = Inr (projr (fst (get_all_models overlap_world False two_backends)))"
    by code_simp
  have run: "get_all_models overlap_world False two_backends
              = (Inr (projr (fst (get_all_models overlap_world False two_backends))), ?s')"
    using ok by (metis prod.collapse)
  have shared: "contributes overlap_world two_backends 1 ''shared''"
    and own: "contributes overlap_world two_backends 0 ''m-a''"
    and not_b: "\<not> contributes overlap_world two_backends 1 ''m-a''"
    by code_simp+
  have free: "''shared'' \<notin> set static_ids" "''m-a'' \<notin> set static_ids"
    by (simp_all add: static_ids_def)
  have len: "length (OPENAI_API_BASE_URLS two_backends) = 2"
    by (simp add: two_backends_def)
  have concrete: ?thesis
    by code_simp
  note wins = catalog_last_writer_wins [OF a1 a2 run]
  from wins shared free len have "\<exists>entry. map_of (MODELS ?s') (JStr ''shared'') = Some entry
      \<and> subscript entry ''id'' = Inr (JStr ''shared'')
      \<and> subscript entry ''urlIdx'' = Inr (JInt (int 1))"
    by (elim conjE allE [of _ "''shared''"] allE [of _ "1::nat"]) auto
  with concrete show ?thesis by blast
qed

text \<open>
  The claim as stated fails for an id that is also the id of a static entry: backend 1 is
  the last backend that lists \<^verbatim>\<open>moonshot-v1-8k\<close>, and the catalog holds the static entry,
  whose \<^verbatim>\<open>urlIdx\<close> is 0.
\<close>

theorem static_id_overrides_backend_counterexample:
  "contributes overlap_world two_backends 1 ''moonshot-v1-8k''
   \<and> map_of (MODELS (snd (get_all_models overlap_world False two_backends)))
       (JStr ''moonshot-v1-8k'')
     = Some (JObj (static_entry ''moonshot-v1-8k'' 0 @ [(''urlIdx'', JInt 0)]))
   \<and> subscript (JObj (static_entry ''moonshot-v1-8k'' 0 @ [(''urlIdx'', JInt 0)])) ''urlIdx''
     = Inr (JInt 0)"
  by code_simp

end
